theory Spec2Isabelle
  imports Main
begin

section \<open>Values exchanged with the outside\<close>

subsection \<open>Decoded JSON\<close>

text \<open>
  What \<^verbatim>\<open>response.json()\<close> hands to the program: \<^verbatim>\<open>None\<close>, a bool, an int, a str, a
  list or a dict. Non-integral numbers are not represented. An object is kept as
  the list of its members in document order; Python's dict keeps the last value of
  a repeated key.
\<close>

datatype jvalue =
    JNull
  | JBool bool
  | JInt int
  | JStr string
  | JList "jvalue list"
  | JObj "(string \<times> jvalue) list"

text \<open>Python truthiness, as used by \<^verbatim>\<open>not x\<close> and \<^verbatim>\<open>x or y\<close>.\<close>

fun truthy :: "jvalue \<Rightarrow> bool" where
  "truthy JNull = False"
| "truthy (JBool b) = b"
| "truthy (JInt n) = (n \<noteq> 0)"
| "truthy (JStr s) = (s \<noteq> [])"
| "truthy (JList xs) = (xs \<noteq> [])"
| "truthy (JObj kvs) = (kvs \<noteq> [])"

definition py_or :: "jvalue \<Rightarrow> jvalue \<Rightarrow> jvalue" where
  "py_or a b = (if truthy a then a else b)"

definition dict_lookup :: "(string \<times> jvalue) list \<Rightarrow> string \<Rightarrow> jvalue option" where
  "dict_lookup kvs k = map_of (rev kvs) k"

text \<open>\<^verbatim>\<open>d.get(k)\<close>: the value, or \<^verbatim>\<open>None\<close> when the key is absent.\<close>

definition dict_get :: "(string \<times> jvalue) list \<Rightarrow> string \<Rightarrow> jvalue" where
  "dict_get kvs k = (case dict_lookup kvs k of None \<Rightarrow> JNull | Some v \<Rightarrow> v)"

text \<open>Decimal rendering of an integer, as \<^verbatim>\<open>str\<close> and f-strings produce it.\<close>

function str_nat :: "nat \<Rightarrow> string" where
  "str_nat n =
     (if n < 10 then [''0123456789'' ! n]
      else str_nat (n div 10) @ [''0123456789'' ! (n mod 10)])"
  by pat_completeness auto
termination
  by (relation "measure (\<lambda>n. n)") auto

definition str_int :: "int \<Rightarrow> string" where
  "str_int i = (if i < 0 then CHR ''-'' # str_nat (nat (- i)) else str_nat (nat i))"

text \<open>
  The text an f-string inserts for a decoded value. It is given for the scalar
  values; the rendering of a list or a dict (Python's \<^verbatim>\<open>repr\<close> of its elements) is
  left unspecified, so nothing proved below depends on it.
\<close>

fun py_str :: "jvalue \<Rightarrow> string" where
  "py_str (JStr s) = s"
| "py_str (JInt n) = str_int n"
| "py_str (JBool b) = (if b then ''True'' else ''False'')"
| "py_str JNull = ''None''"

text \<open>\<^verbatim>\<open>s.replace("Z", "+00:00")\<close>: every occurrence is replaced.\<close>

definition replace_Z :: "string \<Rightarrow> string" where
  "replace_Z s = concat (map (\<lambda>c. if c = CHR ''Z'' then ''+00:00'' else [c]) s)"

subsection \<open>Time\<close>

text \<open>
  An instant is a count of microseconds since the epoch, the resolution of Python's
  \<^verbatim>\<open>datetime\<close>. A \<^verbatim>\<open>datetime\<close> value is its wall-clock reading (the same count, read
  off the calendar fields) together with its UTC offset, absent for a naive value.
\<close>

definition timedelta_seconds :: "int \<Rightarrow> int" where
  "timedelta_seconds s = s * 1000000"

record datetime =
  wall :: int
  utcoffset :: "int option"

text \<open>
  \<^verbatim>\<open>datetime.fromisoformat\<close> belongs to the Python library; the program is modelled
  for any such parser, \<open>None\<close> standing for its \<^verbatim>\<open>ValueError\<close>.
\<close>

type_synonym iso_parser = "string \<Rightarrow> datetime option"

subsection \<open>HTTP\<close>

text \<open>
  A response: its status code, its text, the value its text decodes to when it is
  JSON, and the message \<^verbatim>\<open>raise_for_status\<close> gives the error it raises for it (httpx
  composes it from the status line and the URL).
\<close>

record response =
  status_code :: nat
  body_text :: string
  body_json :: "jvalue option"
  error_text :: string

text \<open>
  The \<^verbatim>\<open>httpx.HTTPError\<close> family: a transport failure raised by the call itself, and
  the error \<^verbatim>\<open>raise_for_status\<close> raises for a response outside 2xx.
\<close>

datatype http_error = TransportError string | HTTPStatusError response

definition raise_for_status :: "response \<Rightarrow> http_error option" where
  "raise_for_status r =
     (if 200 \<le> status_code r \<and> status_code r \<le> 299 then None
      else Some (HTTPStatusError r))"

text \<open>\<^verbatim>\<open>str(exc)\<close>: the message the error was raised with.\<close>

fun exc_str :: "http_error \<Rightarrow> string" where
  "exc_str (TransportError m) = m"
| "exc_str (HTTPStatusError r) = error_text r"

text \<open>
  The three requests of the program: \<^verbatim>\<open>PATCH {sunday_api_url}/posts/{post_id}\<close> with
  a JSON body, \<^verbatim>\<open>POST {n8n_webhook_url}\<close> with a JSON body, and
  \<^verbatim>\<open>GET {sunday_api_url}/posts\<close> with query parameters.
\<close>

datatype request =
    Patch_post string jvalue
  | Post_webhook jvalue
  | Get_posts "(string \<times> string) list"

text \<open>The outside world answers a request with a response or a raised error.\<close>

type_synonym world = "request \<Rightarrow> http_error + response"

subsection \<open>Exceptions other than httpx's\<close>

datatype exn =
    AttributeError
  | TypeError
  | ValueError
  | ConflictingIdError string
  | JobLookupError string
  | HTTPException nat string

section \<open>The job store\<close>

record job =
  job_id :: string
  run_date :: int
  args :: "jvalue list"

text \<open>
  Modelled from the spec: the scheduler object returned by \<^verbatim>\<open>get_scheduler()\<close> is an
  APScheduler \<^verbatim>\<open>BackgroundScheduler\<close>, whose code is not part of the sources. Its
  three operations follow the contract of the Job Store: \<open>get\<close> returns the live job
  with the key; \<open>cancel\<close> removes it and fails when there is none; \<open>enqueue\<close> with
  \<open>reject_if_exists\<close> fails when a live job with the key exists, and with
  \<open>replace_if_exists\<close> removes any existing live job with the key and inserts the new
  one. The store is a list of jobs, so that two jobs under one key can be told from
  one.
\<close>

definition get_job :: "string \<Rightarrow> job list \<Rightarrow> job option" where
  "get_job jid js = find (\<lambda>j. job_id j = jid) js"

definition remove_job :: "string \<Rightarrow> job list \<Rightarrow> exn + job list" where
  "remove_job jid js =
     (if get_job jid js = None then Inl (JobLookupError jid)
      else Inr (filter (\<lambda>j. job_id j \<noteq> jid) js))"

definition add_job :: "job \<Rightarrow> bool \<Rightarrow> job list \<Rightarrow> exn + job list" where
  "add_job j replace_existing js =
     (case get_job (job_id j) js of
        None \<Rightarrow> Inr (js @ [j])
      | Some _ \<Rightarrow>
          if replace_existing then Inr (filter (\<lambda>x. job_id x \<noteq> job_id j) js @ [j])
          else Inl (ConflictingIdError (job_id j)))"

section \<open>The state of the process\<close>

datatype level = DEBUG | INFO | WARNING | ERROR

text \<open>
  The scheduler's jobs, the module-level dict \<^verbatim>\<open>_retry_counts\<close>, the requests sent
  so far, and the log: each record is its level and its format string.
\<close>

record sys =
  jobs :: "job list"
  retry_counts :: "string \<rightharpoonup> int"
  sent :: "request list"
  logs :: "(level \<times> string) list"

definition log_msg :: "level \<Rightarrow> string \<Rightarrow> sys \<Rightarrow> sys" where
  "log_msg lvl m st = st\<lparr>logs := logs st @ [(lvl, m)]\<rparr>"

definition send :: "request \<Rightarrow> sys \<Rightarrow> sys" where
  "send req st = st\<lparr>sent := sent st @ [req]\<rparr>"

subsection \<open>Log messages\<close>

text \<open>The format strings of the log calls, in the order of the sources.\<close>

definition marked_failed_log :: string where
  "marked_failed_log = ''Marked post %s as failed: %s''"

definition mark_failed_error_log :: string where
  "mark_failed_error_log = ''Failed to mark post %s as failed: %s''"

definition retry_log :: string where
  "retry_log = ''Scheduled retry %d/%d for post %s at %s''"

definition trigger_log :: string where
  "trigger_log = ''Triggering publish for post %s (attempt %d/%d)''"

definition publishing_log :: string where
  "publishing_log = ''Marked post %s as publishing (status=%d, duration=%dms)''"

definition success_log :: string where
  "success_log = ''Successfully triggered n8n for post %s (status=%d, duration=%dms, body=%s)''"

definition failure_log :: string where
  "failure_log = ''Failed to trigger n8n for post %s (attempt %d/%d): %s (response_body=%s)''"

definition fetch_failed_log :: string where
  "fetch_failed_log = ''Failed to fetch scheduled posts for catch-up: %s''"

definition parse_warning_log :: string where
  "parse_warning_log = ''Could not parse scheduled_at for post %s: %s''"

definition pending_log :: string where
  "pending_log = ''Post %s already has a pending job, skipping''"

definition recovered_log :: string where
  "recovered_log = ''Recovered missed post %s (was due %s, rescheduled to %s)''"

definition complete_log :: string where
  "complete_log = ''Catch-up complete: recovered %d missed post(s)''"

definition nothing_log :: string where
  "nothing_log = ''Catch-up complete: no missed posts found''"

section \<open>jobs.py\<close>

definition MAX_RETRIES :: int where
  "MAX_RETRIES = 3"

definition RETRY_DELAY_SECONDS :: int where
  "RETRY_DELAY_SECONDS = 120"

definition get_retry_count :: "(string \<rightharpoonup> int) \<Rightarrow> string \<Rightarrow> int" where
  "get_retry_count rc post_id = (case rc post_id of None \<Rightarrow> 0 | Some n \<Rightarrow> n)"

definition clear_retry_count :: "(string \<rightharpoonup> int) \<Rightarrow> string \<Rightarrow> (string \<rightharpoonup> int)" where
  "clear_retry_count rc post_id = rc(post_id := None)"

definition failed_request :: "string \<Rightarrow> string \<Rightarrow> request" where
  "failed_request post_id error_message =
     Patch_post post_id
       (JObj [(''status'', JStr ''failed''), (''errorMessage'', JStr error_message)])"

text \<open>\<^verbatim>\<open>_mark_post_failed\<close>: one PATCH, whose own failure is caught and logged.\<close>

definition mark_post_failed :: "world \<Rightarrow> string \<Rightarrow> string \<Rightarrow> sys \<Rightarrow> sys" where
  "mark_post_failed w post_id error_message st =
     (let req = failed_request post_id error_message;
          st1 = send req st
      in case w req of
           Inr _ \<Rightarrow> log_msg INFO marked_failed_log st1
         | Inl exc \<Rightarrow> log_msg ERROR mark_failed_error_log st1)"

text \<open>
  \<^verbatim>\<open>_schedule_retry\<close>; \<open>now\<close> is the reading of \<^verbatim>\<open>datetime.now(timezone.utc)\<close>. An
  exception of the store would leave the function at once, with the state reached.
\<close>

definition schedule_retry :: "int \<Rightarrow> string \<Rightarrow> int \<Rightarrow> sys \<Rightarrow> exn option \<times> sys" where
  "schedule_retry now post_id retry_number st =
     (let run_date = now + timedelta_seconds RETRY_DELAY_SECONDS;
          jid = ''post-'' @ post_id;
          existing = get_job jid (jobs st)
      in case (if existing \<noteq> None then remove_job jid (jobs st) else Inr (jobs st)) of
           Inl e \<Rightarrow> (Some e, st)
         | Inr js1 \<Rightarrow>
             (case add_job \<lparr>job_id = jid, run_date = run_date, args = [JStr post_id]\<rparr> True js1 of
                Inl e \<Rightarrow> (Some e, st\<lparr>jobs := js1\<rparr>)
              | Inr js2 \<Rightarrow>
                  (None, log_msg INFO retry_log (st\<lparr>jobs := js2\<rparr>))))"

definition publishing_request :: "string \<Rightarrow> request" where
  "publishing_request post_id = Patch_post post_id (JObj [(''status'', JStr ''publishing'')])"

definition webhook_request :: "string \<Rightarrow> request" where
  "webhook_request post_id = Post_webhook (JObj [(''postId'', JStr post_id)])"

text \<open>
  The \<^verbatim>\<open>try\<close> block of \<^verbatim>\<open>trigger_linkedin_publish\<close>: the status PATCH and its
  \<^verbatim>\<open>raise_for_status\<close>, then the webhook POST and its \<^verbatim>\<open>raise_for_status\<close>, then
  the clearing of the retry count. The result is the \<^verbatim>\<open>httpx.HTTPError\<close> that left
  the block, if any, and the state reached.
\<close>

definition publish_try :: "world \<Rightarrow> string \<Rightarrow> sys \<Rightarrow> http_error option \<times> sys" where
  "publish_try w post_id st =
     (let st1 = send (publishing_request post_id) st
      in case w (publishing_request post_id) of
           Inl exc \<Rightarrow> (Some exc, st1)
         | Inr publish_response \<Rightarrow>
             (case raise_for_status publish_response of
                Some exc \<Rightarrow> (Some exc, st1)
              | None \<Rightarrow>
                  (let st2 = log_msg INFO publishing_log st1;
                       st3 = send (webhook_request post_id) st2
                   in case w (webhook_request post_id) of
                        Inl exc \<Rightarrow> (Some exc, st3)
                      | Inr response \<Rightarrow>
                          (case raise_for_status response of
                             Some exc \<Rightarrow> (Some exc, st3)
                           | None \<Rightarrow>
                               (let st4 = log_msg INFO success_log st3
                                in (None, st4\<lparr>retry_counts :=
                                             clear_retry_count (retry_counts st4) post_id\<rparr>))))))"

definition failure_message :: "http_error \<Rightarrow> string" where
  "failure_message exc =
     ''Failed after '' @ str_int (MAX_RETRIES + 1) @ '' attempts. Last error: '' @ exc_str exc"

definition trigger_linkedin_publish :: "world \<Rightarrow> int \<Rightarrow> string \<Rightarrow> sys \<Rightarrow> exn option \<times> sys" where
  "trigger_linkedin_publish w now post_id st =
     (let retry_count = get_retry_count (retry_counts st) post_id;
          st0 = log_msg INFO trigger_log st
      in case publish_try w post_id st0 of
           (None, st1) \<Rightarrow> (None, st1)
         | (Some exc, st1) \<Rightarrow>
             (let st2 = log_msg ERROR failure_log st1
              in if retry_count < MAX_RETRIES then
                   schedule_retry now post_id (retry_count + 1)
                     (st2\<lparr>retry_counts := (retry_counts st2)(post_id \<mapsto> retry_count + 1)\<rparr>)
                 else
                   (None, mark_post_failed w post_id (failure_message exc)
                            (st2\<lparr>retry_counts := clear_retry_count (retry_counts st2) post_id\<rparr>))))"

section \<open>routes/schedule.py\<close>

record schedule_response =
  resp_job_id :: string
  resp_post_id :: string
  resp_scheduled_at :: int
  resp_status :: string

text \<open>
  Each handler returns its response, or the exception that left it, together with
  the job list it leaves behind. The request models have been validated before the
  handler runs; \<open>post_id\<close> and \<open>scheduled_at\<close> are their fields.
\<close>

definition create_schedule ::
  "string \<Rightarrow> int \<Rightarrow> job list \<Rightarrow> (exn + schedule_response) \<times> job list" where
  "create_schedule post_id scheduled_at js =
     (let jid = ''post-'' @ post_id;
          existing = get_job jid js
      in if existing \<noteq> None then
           (Inl (HTTPException 409 (''Post '' @ post_id @ '' is already scheduled'')), js)
         else
           (case add_job \<lparr>job_id = jid, run_date = scheduled_at, args = [JStr post_id]\<rparr> False js of
              Inl e \<Rightarrow> (Inl e, js)
            | Inr js1 \<Rightarrow>
                (Inr \<lparr>resp_job_id = jid, resp_post_id = post_id,
                      resp_scheduled_at = scheduled_at, resp_status = ''scheduled''\<rparr>, js1)))"

definition cancel_schedule :: "string \<Rightarrow> job list \<Rightarrow> (exn + string \<times> string) \<times> job list" where
  "cancel_schedule post_id js =
     (let jid = ''post-'' @ post_id;
          job = get_job jid js
      in if job = None then
           (Inl (HTTPException 404 (''No schedule found for post '' @ post_id)), js)
         else
           (case remove_job jid js of
              Inl e \<Rightarrow> (Inl e, js)
            | Inr js1 \<Rightarrow> (Inr (''cancelled'', post_id), js1)))"

definition reschedule_post ::
  "string \<Rightarrow> int \<Rightarrow> job list \<Rightarrow> (exn + schedule_response) \<times> job list" where
  "reschedule_post post_id scheduled_at js =
     (let jid = ''post-'' @ post_id;
          existing = get_job jid js
      in case (if existing \<noteq> None then remove_job jid js else Inr js) of
           Inl e \<Rightarrow> (Inl e, js)
         | Inr js1 \<Rightarrow>
             (case add_job \<lparr>job_id = jid, run_date = scheduled_at, args = [JStr post_id]\<rparr> False js1 of
                Inl e \<Rightarrow> (Inl e, js1)
              | Inr js2 \<Rightarrow>
                  (Inr \<lparr>resp_job_id = jid, resp_post_id = post_id,
                        resp_scheduled_at = scheduled_at, resp_status = ''rescheduled''\<rparr>, js2)))"

section \<open>catchup.py\<close>

definition CATCHUP_DELAY_SECONDS :: int where
  "CATCHUP_DELAY_SECONDS = 30"

definition posts_request :: request where
  "posts_request = Get_posts [(''status'', ''scheduled'')]"

text \<open>
  The normalisation of the decoded body: a list is kept; a dict yields
  \<^verbatim>\<open>posts.get("posts", [])\<close>; anything else yields \<^verbatim>\<open>[]\<close>.
\<close>

definition unwrap_posts :: "jvalue \<Rightarrow> jvalue" where
  "unwrap_posts posts =
     (case posts of
        JList xs \<Rightarrow> JList xs
      | JObj kvs \<Rightarrow> (case dict_lookup kvs ''posts'' of None \<Rightarrow> JList [] | Some v \<Rightarrow> v)
      | _ \<Rightarrow> JList [])"

text \<open>
  What \<^verbatim>\<open>for post in posts\<close> iterates over: the elements of a list, the characters
  of a str, the keys of a dict; \<^verbatim>\<open>None\<close>, a bool and an int are not iterable.
\<close>

fun iterate :: "jvalue \<Rightarrow> exn + jvalue list" where
  "iterate (JList xs) = Inr xs"
| "iterate (JStr s) = Inr (map (\<lambda>c. JStr [c]) s)"
| "iterate (JObj kvs) = Inr (map JStr (rev (remdups (rev (map fst kvs)))))"
| "iterate _ = Inl TypeError"

text \<open>
  \<^verbatim>\<open>scheduled_at >= now\<close>, where \<open>now\<close> is aware: Python compares the instants of two
  aware values and raises \<^verbatim>\<open>TypeError\<close> when the left one is naive.
\<close>

definition ge_now :: "datetime \<Rightarrow> int \<Rightarrow> exn + bool" where
  "ge_now d now =
     (case utcoffset d of None \<Rightarrow> Inl TypeError | Some off \<Rightarrow> Inr (wall d - off \<ge> now))"

definition catchup_job :: "int \<Rightarrow> jvalue \<Rightarrow> job" where
  "catchup_job now post_id =
     \<lparr>job_id = ''post-'' @ py_str post_id,
      run_date = now + timedelta_seconds CATCHUP_DELAY_SECONDS,
      args = [post_id]\<rparr>"

text \<open>
  One pass of the loop body on \<open>post\<close>, from the count \<open>recovered\<close> and the state
  \<open>st\<close>. \<^verbatim>\<open>post.get\<close> exists only on a dict: any other element raises
  \<^verbatim>\<open>AttributeError\<close>. Each \<^verbatim>\<open>continue\<close> returns the count and state it leaves.
\<close>

definition recover_post ::
  "iso_parser \<Rightarrow> int \<Rightarrow> jvalue \<Rightarrow> int \<times> sys \<Rightarrow> exn + int \<times> sys" where
  "recover_post fromisoformat now post acc =
     (case acc of (recovered, st) \<Rightarrow>
      (case post of
         JObj kvs \<Rightarrow>
           (let post_id = dict_get kvs ''id'';
                scheduled_at_raw = py_or (dict_get kvs ''scheduledAt'') (dict_get kvs ''scheduled_at'')
            in if \<not> truthy post_id \<or> \<not> truthy scheduled_at_raw then Inr (recovered, st)
               else
                 (case scheduled_at_raw of
                    JStr raw \<Rightarrow>
                      (case fromisoformat (replace_Z raw) of
                         None \<Rightarrow> Inr (recovered, log_msg WARNING parse_warning_log st)
                       | Some parsed \<Rightarrow>
                           (let scheduled_at =
                                  (if utcoffset parsed = None then parsed\<lparr>utcoffset := Some 0\<rparr>
                                   else parsed)
                            in case ge_now scheduled_at now of
                                 Inl e \<Rightarrow> Inl e
                               | Inr True \<Rightarrow> Inr (recovered, st)
                               | Inr False \<Rightarrow>
                                   if get_job (''post-'' @ py_str post_id) (jobs st) \<noteq> None then
                                     Inr (recovered, log_msg DEBUG pending_log st)
                                   else
                                     (case add_job (catchup_job now post_id) True (jobs st) of
                                        Inl e \<Rightarrow> Inl e
                                      | Inr js \<Rightarrow>
                                          Inr (recovered + 1,
                                               log_msg INFO recovered_log (st\<lparr>jobs := js\<rparr>)))))
                  | _ \<Rightarrow> Inr (recovered, st)))
       | _ \<Rightarrow> Inl AttributeError))"

text \<open>The \<^verbatim>\<open>for\<close> loop: an exception of the body leaves it with the state reached.\<close>

fun catchup_loop ::
  "iso_parser \<Rightarrow> int \<Rightarrow> jvalue list \<Rightarrow> int \<times> sys \<Rightarrow> exn option \<times> int \<times> sys" where
  "catchup_loop fromisoformat now [] acc = (None, acc)"
| "catchup_loop fromisoformat now (post # posts) acc =
     (case recover_post fromisoformat now post acc of
        Inl e \<Rightarrow> (Some e, acc)
      | Inr acc' \<Rightarrow> catchup_loop fromisoformat now posts acc')"

text \<open>
  \<^verbatim>\<open>recover_missed_posts\<close> after the \<^verbatim>\<open>try\<close> block, from the decoded body \<open>posts\<close>:
  the normalisation, the loop, the summary line and the \<^verbatim>\<open>return\<close>.
\<close>

definition process_posts :: "iso_parser \<Rightarrow> int \<Rightarrow> jvalue \<Rightarrow> sys \<Rightarrow> (exn + int) \<times> sys" where
  "process_posts fromisoformat now posts st =
     (case iterate (unwrap_posts posts) of
        Inl e \<Rightarrow> (Inl e, st)
      | Inr items \<Rightarrow>
          (case catchup_loop fromisoformat now items (0, st) of
             (Some e, recovered, st') \<Rightarrow> (Inl e, st')
           | (None, recovered, st') \<Rightarrow>
               (Inr recovered,
                if recovered \<noteq> 0 then log_msg INFO complete_log st'
                else log_msg INFO nothing_log st')))"

text \<open>
  \<^verbatim>\<open>recover_missed_posts\<close>: the count returned, or the exception that left the
  function, and the state it leaves. \<open>now\<close> is the reading of
  \<^verbatim>\<open>datetime.now(timezone.utc)\<close>. \<^verbatim>\<open>response.json()\<close> raises a \<^verbatim>\<open>ValueError\<close> on a
  body that is not JSON, which the \<^verbatim>\<open>except httpx.HTTPError\<close> does not catch.
\<close>

definition recover_missed_posts ::
  "world \<Rightarrow> iso_parser \<Rightarrow> int \<Rightarrow> sys \<Rightarrow> (exn + int) \<times> sys" where
  "recover_missed_posts w fromisoformat now st =
     (let st1 = send posts_request st
      in case w posts_request of
           Inl exc \<Rightarrow> (Inr 0, log_msg ERROR fetch_failed_log st1)
         | Inr response \<Rightarrow>
             (case raise_for_status response of
                Some exc \<Rightarrow> (Inr 0, log_msg ERROR fetch_failed_log st1)
              | None \<Rightarrow>
                  (case body_json response of
                     None \<Rightarrow> (Inl ValueError, st1)
                   | Some posts \<Rightarrow> process_posts fromisoformat now posts st1)))"

section \<open>Sequences of operations\<close>

text \<open>
  The operations that touch the job store: the three handlers, a firing of
  \<^verbatim>\<open>trigger_linkedin_publish\<close> (with the world it meets and the clock reading), and a
  pass of \<^verbatim>\<open>recover_missed_posts\<close>. An operation that raises leaves the state it
  reached.
\<close>

datatype operation =
    Create string int
  | Cancel string
  | Reschedule string int
  | Fire world int string
  | Catch_up world int

fun step :: "iso_parser \<Rightarrow> operation \<Rightarrow> sys \<Rightarrow> sys" where
  "step p (Create post_id scheduled_at) st = st\<lparr>jobs := snd (create_schedule post_id scheduled_at (jobs st))\<rparr>"
| "step p (Cancel post_id) st = st\<lparr>jobs := snd (cancel_schedule post_id (jobs st))\<rparr>"
| "step p (Reschedule post_id scheduled_at) st =
     st\<lparr>jobs := snd (reschedule_post post_id scheduled_at (jobs st))\<rparr>"
| "step p (Fire w now post_id) st = snd (trigger_linkedin_publish w now post_id st)"
| "step p (Catch_up w now) st = snd (recover_missed_posts w p now st)"

fun run :: "iso_parser \<Rightarrow> operation list \<Rightarrow> sys \<Rightarrow> sys" where
  "run p [] st = st"
| "run p (x # xs) st = run p xs (step p x st)"

definition unique_keys :: "job list \<Rightarrow> bool" where
  "unique_keys js = distinct (map job_id js)"

definition initial :: sys where
  "initial = \<lparr>jobs = [], retry_counts = Map.empty, sent = [], logs = []\<rparr>"

section \<open>Notions used in the statements\<close>

text \<open>
  The error with which the \<^verbatim>\<open>try\<close> block of a firing for \<open>post_id\<close> ends in the world
  \<open>w\<close>: that of the first of its four steps that raises, or none.
\<close>

definition firing_error :: "world \<Rightarrow> string \<Rightarrow> http_error option" where
  "firing_error w post_id =
     (case w (publishing_request post_id) of
        Inl exc \<Rightarrow> Some exc
      | Inr r \<Rightarrow>
          (case raise_for_status r of
             Some exc \<Rightarrow> Some exc
           | None \<Rightarrow>
               (case w (webhook_request post_id) of
                  Inl exc \<Rightarrow> Some exc
                | Inr r' \<Rightarrow> raise_for_status r')))"

text \<open>The bound on the stored retry counts.\<close>

definition retry_bounded :: "(string \<rightharpoonup> int) \<Rightarrow> bool" where
  "retry_bounded rc = (\<forall>post_id n. rc post_id = Some n \<longrightarrow> 1 \<le> n \<and> n \<le> MAX_RETRIES)"

text \<open>
  The instant a parsed timestamp declares, a naive one being read as UTC.
\<close>

definition instant :: "datetime \<Rightarrow> int" where
  "instant d = wall d - (case utcoffset d of None \<Rightarrow> 0 | Some off \<Rightarrow> off)"

text \<open>
  The identifier of a candidate that the loop would recover if its key were free: an
  object with a truthy identifier and a timestamp string that the parser accepts and
  that declares an instant before \<open>now\<close>.
\<close>

definition due_id :: "iso_parser \<Rightarrow> int \<Rightarrow> jvalue \<Rightarrow> jvalue option" where
  "due_id p now post =
     (case post of
        JObj kvs \<Rightarrow>
          (case py_or (dict_get kvs ''scheduledAt'') (dict_get kvs ''scheduled_at'') of
             JStr raw \<Rightarrow>
               (case p (replace_Z raw) of
                  Some d \<Rightarrow>
                    if truthy (dict_get kvs ''id'') \<and> raw \<noteq> [] \<and> instant d < now
                    then Some (dict_get kvs ''id'') else None
                | None \<Rightarrow> None)
           | _ \<Rightarrow> None)
      | _ \<Rightarrow> None)"

section \<open>Sample inputs\<close>

text \<open>
  A parser for the fixed-width timestamps \<^verbatim>\<open>YYYY-MM-DDTHH:MM:SS\<close> with an optional
  \<^verbatim>\<open>+HH:MM\<close> or \<^verbatim>\<open>-HH:MM\<close> suffix, on which it returns what
  \<^verbatim>\<open>datetime.fromisoformat\<close> returns. It instantiates the parser in the examples.
\<close>

definition digit_val :: "char \<Rightarrow> nat option" where
  "digit_val c =
     (if (48::nat) \<le> of_char c \<and> of_char c \<le> (57::nat) then Some (of_char c - 48) else None)"

fun number :: "string \<Rightarrow> nat \<Rightarrow> nat option" where
  "number [] acc = Some acc"
| "number (c # cs) acc =
     (case digit_val c of None \<Rightarrow> None | Some d \<Rightarrow> number cs (10 * acc + d))"

definition is_leap :: "nat \<Rightarrow> bool" where
  "is_leap y = (y mod 4 = 0 \<and> (y mod 100 \<noteq> 0 \<or> y mod 400 = 0))"

definition days_in_month :: "nat \<Rightarrow> nat \<Rightarrow> nat" where
  "days_in_month y m =
     (if m = 2 then (if is_leap y then 29 else 28)
      else if m \<in> {4, 6, 9, 11} then 30 else 31)"

text \<open>Days from 1970-01-01 to the given date of the proleptic Gregorian calendar.\<close>

definition days_from_civil :: "nat \<Rightarrow> nat \<Rightarrow> nat \<Rightarrow> int" where
  "days_from_civil y m d =
     (let y' = int y - (if m \<le> 2 then 1 else 0);
          era = y' div 400;
          yoe = y' mod 400;
          doy = (153 * (int m + (if m > 2 then - 3 else 9)) + 2) div 5 + int d - 1;
          doe = yoe * 365 + yoe div 4 - yoe div 100 + doy
      in era * 146097 + doe - 719468)"

definition parse_offset :: "string \<Rightarrow> int option option" where
  "parse_offset s =
     (if s = [] then Some None
      else if length s = 6 \<and> (s ! 0 = CHR ''+'' \<or> s ! 0 = CHR ''-'') \<and> s ! 3 = CHR '':'' then
        (case (number (take 2 (drop 1 s)) 0, number (take 2 (drop 4 s)) 0) of
           (Some h, Some m) \<Rightarrow>
             if h < 24 \<and> m < 60 then
               Some (Some ((if s ! 0 = CHR ''-'' then - 1 else 1)
                            * timedelta_seconds (int h * 3600 + int m * 60)))
             else None
         | _ \<Rightarrow> None)
      else None)"

definition fromisoformat_basic :: iso_parser where
  "fromisoformat_basic s =
     (if length s < 19 \<or> s ! 4 \<noteq> CHR ''-'' \<or> s ! 7 \<noteq> CHR ''-'' \<or> s ! 10 \<noteq> CHR ''T''
         \<or> s ! 13 \<noteq> CHR '':'' \<or> s ! 16 \<noteq> CHR '':'' then None
      else
        (case (number (take 4 s) 0, number (take 2 (drop 5 s)) 0, number (take 2 (drop 8 s)) 0,
               number (take 2 (drop 11 s)) 0, number (take 2 (drop 14 s)) 0,
               number (take 2 (drop 17 s)) 0, parse_offset (drop 19 s)) of
           (Some y, Some m, Some d, Some hh, Some mm, Some ss, Some off) \<Rightarrow>
             if 1 \<le> y \<and> 1 \<le> m \<and> m \<le> 12 \<and> 1 \<le> d \<and> d \<le> days_in_month y m
                \<and> hh < 24 \<and> mm < 60 \<and> ss < 60 then
               Some \<lparr>wall = timedelta_seconds
                              (((days_from_civil y m d * 24 + int hh) * 60 + int mm) * 60 + int ss),
                     utcoffset = off\<rparr>
             else None
         | _ \<Rightarrow> None))"

text \<open>Worlds: one in which only the webhook is down, one in which only the API is.\<close>

definition ok_response :: response where
  "ok_response = \<lparr>status_code = 200, body_text = ''ok'', body_json = None, error_text = []\<rparr>"

definition webhook_down :: world where
  "webhook_down =
     (\<lambda>req. case req of
        Post_webhook b \<Rightarrow> Inl (TransportError ''n8n down'')
      | _ \<Rightarrow> Inr ok_response)"

definition api_down :: world where
  "api_down =
     (\<lambda>req. case req of
        Post_webhook b \<Rightarrow> Inr ok_response
      | _ \<Rightarrow> Inl (TransportError ''API down''))"

text \<open>A world whose listing answers 200 with the given decoded body.\<close>

definition listing :: "jvalue \<Rightarrow> world" where
  "listing body = (\<lambda>req. Inr \<lparr>status_code = 200, body_text = [], body_json = Some body, error_text = []\<rparr>)"

text \<open>A listing of two overdue posts, and a sequence of operations on the post \<open>a\<close>.\<close>

definition sample_listing :: jvalue where
  "sample_listing =
     JList [JObj [(''id'', JStr ''a''), (''scheduledAt'', JStr ''2024-01-01T00:00:00Z''),
                  (''status'', JStr ''scheduled'')],
            JObj [(''id'', JStr ''b''), (''scheduledAt'', JStr ''2024-01-01T00:00:00Z''),
                  (''status'', JStr ''scheduled'')]]"

definition sample_ops :: "operation list" where
  "sample_ops =
     [Create ''a'' 1704067200000000, Create ''a'' 1704067200000000,
      Reschedule ''a'' 1704070800000000, Fire webhook_down 1704070800000000 ''a'',
      Catch_up (listing sample_listing) 1704070900000000]"

definition unavailable :: world where
  "unavailable = (\<lambda>req. Inr \<lparr>status_code = 503, body_text = ''Service Unavailable'', body_json = None,
       error_text = ''Server error 503 Service Unavailable''\<rparr>)"

definition failing_ops :: "operation list" where
  "failing_ops =
     [Fire webhook_down 0 ''a'', Fire webhook_down 120000000 ''a'',
      Fire webhook_down 240000000 ''a'', Fire webhook_down 360000000 ''b'']"

definition overdue_a :: "(string \<times> jvalue) list" where
  "overdue_a = [(''id'', JStr ''a''), (''scheduledAt'', JStr ''2024-01-01T00:00:00Z''),
                (''status'', JStr ''scheduled'')]"

definition future_b :: "(string \<times> jvalue) list" where
  "future_b = [(''id'', JStr ''b''), (''scheduled_at'', JStr ''2024-01-01T02:00:00+01:00''),
               (''status'', JStr ''scheduled'')]"

definition wrapped_listing :: jvalue where
  "wrapped_listing = JObj [(''posts'', sample_listing), (''total'', JInt 2)]"

definition null_posts :: jvalue where
  "null_posts = JObj [(''posts'', JNull)]"

definition undated :: "(string \<times> jvalue) list" where
  "undated = [(''id'', JStr ''c''), (''status'', JStr ''scheduled'')]"

definition naive_a :: "(string \<times> jvalue) list" where
  "naive_a = [(''id'', JStr ''a''), (''scheduledAt'', JStr ''2024-01-01T00:00:00'')]"

definition garbled :: "(string \<times> jvalue) list" where
  "garbled = [(''id'', JStr ''d''), (''scheduledAt'', JStr ''tomorrow'')]"

definition webhook_refuses :: world where
  "webhook_refuses =
     (\<lambda>req. case req of
        Post_webhook b \<Rightarrow>
          Inr \<lparr>status_code = 500, body_text = ''workflow error'', body_json = None,
               error_text = ''Server error 500 Internal Server Error''\<rparr>
      | _ \<Rightarrow> Inr ok_response)"

definition two_posts :: jvalue where
  "two_posts = JList [JObj overdue_a, JObj future_b]"

section \<open>Lemmas\<close>

subsection \<open>Rendering\<close>

declare str_nat.simps [simp del]

lemma str_int_4: "str_int 4 = ''4''"
  by (simp add: str_int_def str_nat.simps)

lemma failure_message_eq:
  "failure_message exc = ''Failed after 4 attempts. Last error: '' @ exc_str exc"
  by (simp add: failure_message_def MAX_RETRIES_def str_int_4)

subsection \<open>State updates\<close>

lemma log_msg_simps [simp]:
  "jobs (log_msg l m st) = jobs st"
  "retry_counts (log_msg l m st) = retry_counts st"
  "sent (log_msg l m st) = sent st"
  "logs (log_msg l m st) = logs st @ [(l, m)]"
  by (simp_all add: log_msg_def)

lemma send_simps [simp]:
  "jobs (send r st) = jobs st"
  "retry_counts (send r st) = retry_counts st"
  "sent (send r st) = sent st @ [r]"
  "logs (send r st) = logs st"
  by (simp_all add: send_def)

subsection \<open>The job store\<close>

lemma get_job_None_iff: "get_job jid js = None \<longleftrightarrow> (\<forall>j\<in>set js. job_id j \<noteq> jid)"
  by (auto simp: get_job_def find_None_iff)

lemma get_job_Some_id: "get_job jid js = Some j \<Longrightarrow> job_id j = jid \<and> j \<in> set js"
  by (auto simp: get_job_def find_Some_iff)

lemma get_job_append:
  "get_job jid (js @ ks) = (case get_job jid js of None \<Rightarrow> get_job jid ks | Some j \<Rightarrow> Some j)"
  by (induction js) (simp_all add: get_job_def)

lemma filter_absent: "get_job jid js = None \<Longrightarrow> filter (\<lambda>x. job_id x \<noteq> jid) js = js"
  by (simp add: get_job_None_iff filter_id_conv)

lemma add_job_replace:
  "add_job j True js = Inr (filter (\<lambda>x. job_id x \<noteq> job_id j) js @ [j])"
  by (cases "get_job (job_id j) js") (simp_all add: add_job_def filter_absent)

lemma add_job_absent: "get_job (job_id j) js = None \<Longrightarrow> add_job j b js = Inr (js @ [j])"
  by (simp add: add_job_def)

lemma add_job_reject: "get_job (job_id j) js \<noteq> None \<Longrightarrow> add_job j False js = Inl (ConflictingIdError (job_id j))"
  by (auto simp: add_job_def)

lemma unique_keys_append_new:
  "unique_keys js \<Longrightarrow> get_job (job_id j) js = None \<Longrightarrow> unique_keys (js @ [j])"
  by (auto simp: unique_keys_def get_job_None_iff)

lemma unique_keys_filter: "unique_keys js \<Longrightarrow> unique_keys (filter P js)"
  by (simp add: unique_keys_def distinct_map_filter)

lemma get_job_filter_self: "get_job jid (filter (\<lambda>x. job_id x \<noteq> jid) js) = None"
  by (simp add: get_job_None_iff)

lemma unique_keys_replace:
  "unique_keys js \<Longrightarrow> unique_keys (filter (\<lambda>x. job_id x \<noteq> job_id j) js @ [j])"
  by (simp add: unique_keys_append_new unique_keys_filter get_job_filter_self)

subsection \<open>jobs.py\<close>

lemma publish_try_fst: "fst (publish_try w post_id st) = firing_error w post_id"
  by (simp add: publish_try_def firing_error_def Let_def split: sum.splits option.splits)

lemma publish_try_jobs: "jobs (snd (publish_try w post_id st)) = jobs st"
  by (simp add: publish_try_def Let_def split: sum.splits option.splits)

lemma publish_try_retry_counts:
  "retry_counts (snd (publish_try w post_id st)) =
     (if firing_error w post_id = None then clear_retry_count (retry_counts st) post_id
      else retry_counts st)"
  by (simp add: publish_try_def firing_error_def Let_def split: sum.splits option.splits)

lemma publish_try_sent:
  "\<exists>reqs. sent (snd (publish_try w post_id st)) = sent st @ reqs
     \<and> set reqs \<subseteq> {publishing_request post_id, webhook_request post_id}"
  by (simp add: publish_try_def Let_def split: sum.splits option.splits)

lemma publish_try_status_failure:
  assumes "w (publishing_request post_id) = Inl exc
           \<or> (\<exists>r. w (publishing_request post_id) = Inr r \<and> raise_for_status r = Some exc)"
  shows "publish_try w post_id st = (Some exc, send (publishing_request post_id) st)"
  using assms by (auto simp: publish_try_def Let_def)

lemma schedule_retry_eq:
  "schedule_retry now post_id k st =
     (None, log_msg INFO retry_log
        (st\<lparr>jobs := filter (\<lambda>x. job_id x \<noteq> ''post-'' @ post_id) (jobs st) @
            [\<lparr>job_id = ''post-'' @ post_id,
              run_date = now + timedelta_seconds RETRY_DELAY_SECONDS,
              args = [JStr post_id]\<rparr>]\<rparr>))"
proof (cases "get_job (''post-'' @ post_id) (jobs st)")
  case None
  then show ?thesis
    by (simp add: schedule_retry_def Let_def add_job_replace)
next
  case (Some a)
  then show ?thesis
    by (simp add: schedule_retry_def Let_def add_job_replace remove_job_def)
qed

lemma mark_post_failed_simps [simp]:
  "jobs (mark_post_failed w p m st) = jobs st"
  "retry_counts (mark_post_failed w p m st) = retry_counts st"
  "sent (mark_post_failed w p m st) = sent st @ [failed_request p m]"
  by (simp_all add: mark_post_failed_def Let_def split: sum.splits)

lemma mark_post_failed_logs:
  "\<exists>l m'. logs (mark_post_failed w p m st) = logs st @ [(l, m')]"
  by (simp add: mark_post_failed_def Let_def split: sum.splits)

lemma trigger_eq:
  "trigger_linkedin_publish w now post_id st =
     (let st1 = snd (publish_try w post_id (log_msg INFO trigger_log st))
      in case firing_error w post_id of
           None \<Rightarrow> (None, st1)
         | Some exc \<Rightarrow>
             if get_retry_count (retry_counts st) post_id < MAX_RETRIES then
               schedule_retry now post_id (get_retry_count (retry_counts st) post_id + 1)
                 ((log_msg ERROR failure_log st1)\<lparr>retry_counts :=
                    (retry_counts st1)(post_id \<mapsto> get_retry_count (retry_counts st) post_id + 1)\<rparr>)
             else
               (None, mark_post_failed w post_id (failure_message exc)
                  ((log_msg ERROR failure_log st1)\<lparr>retry_counts :=
                     clear_retry_count (retry_counts st1) post_id\<rparr>)))"
proof (cases "publish_try w post_id (log_msg INFO trigger_log st)")
  case (Pair a b)
  with publish_try_fst [of w post_id "log_msg INFO trigger_log st"]
  have "a = firing_error w post_id" by simp
  with Pair show ?thesis
    by (simp add: trigger_linkedin_publish_def Let_def split: option.splits)
qed

lemma trigger_returns: "fst (trigger_linkedin_publish w now post_id st) = None"
  by (simp add: trigger_eq Let_def schedule_retry_eq split: option.splits)

lemma trigger_retry_counts:
  "retry_counts (snd (trigger_linkedin_publish w now post_id st)) =
     (if firing_error w post_id \<noteq> None \<and> get_retry_count (retry_counts st) post_id < MAX_RETRIES
      then (retry_counts st)(post_id \<mapsto> get_retry_count (retry_counts st) post_id + 1)
      else (retry_counts st)(post_id := None))"
  by (auto simp: trigger_eq Let_def schedule_retry_eq publish_try_retry_counts clear_retry_count_def
        split: option.splits)

lemma trigger_jobs:
  "jobs (snd (trigger_linkedin_publish w now post_id st)) =
     (if firing_error w post_id \<noteq> None \<and> get_retry_count (retry_counts st) post_id < MAX_RETRIES
      then filter (\<lambda>x. job_id x \<noteq> ''post-'' @ post_id) (jobs st) @
            [\<lparr>job_id = ''post-'' @ post_id,
              run_date = now + timedelta_seconds RETRY_DELAY_SECONDS,
              args = [JStr post_id]\<rparr>]
      else jobs st)"
  by (auto simp: trigger_eq Let_def schedule_retry_eq publish_try_jobs split: option.splits)

subsection \<open>routes\<close>

lemma create_schedule_cases:
  "create_schedule p t js =
     (if get_job (''post-'' @ p) js \<noteq> None then
        (Inl (HTTPException 409 (''Post '' @ p @ '' is already scheduled'')), js)
      else
        (Inr \<lparr>resp_job_id = ''post-'' @ p, resp_post_id = p, resp_scheduled_at = t,
              resp_status = ''scheduled''\<rparr>,
         js @ [\<lparr>job_id = ''post-'' @ p, run_date = t, args = [JStr p]\<rparr>]))"
  by (simp add: create_schedule_def Let_def add_job_absent)

lemma create_schedule_unique: "unique_keys js \<Longrightarrow> unique_keys (snd (create_schedule p t js))"
  by (simp add: create_schedule_def Let_def add_job_absent unique_keys_append_new)

lemma cancel_schedule_unique: "unique_keys js \<Longrightarrow> unique_keys (snd (cancel_schedule p js))"
  by (simp add: cancel_schedule_def Let_def remove_job_def unique_keys_filter)

lemma reschedule_post_eq:
  "reschedule_post p t js =
     (Inr \<lparr>resp_job_id = ''post-'' @ p, resp_post_id = p, resp_scheduled_at = t,
            resp_status = ''rescheduled''\<rparr>,
      filter (\<lambda>x. job_id x \<noteq> ''post-'' @ p) js @
        [\<lparr>job_id = ''post-'' @ p, run_date = t, args = [JStr p]\<rparr>])"
proof (cases "get_job (''post-'' @ p) js")
  case None
  then show ?thesis
    by (simp add: reschedule_post_def Let_def add_job_absent filter_absent)
next
  case (Some a)
  then show ?thesis
    by (simp add: reschedule_post_def Let_def remove_job_def add_job_absent get_job_filter_self)
qed

lemma reschedule_post_unique: "unique_keys js \<Longrightarrow> unique_keys (snd (reschedule_post p t js))"
  using unique_keys_replace [of js "\<lparr>job_id = ''post-'' @ p, run_date = t, args = [JStr p]\<rparr>"]
  by (simp add: reschedule_post_eq)

lemma trigger_unique:
  "unique_keys (jobs st) \<Longrightarrow> unique_keys (jobs (snd (trigger_linkedin_publish w now p st)))"
  using unique_keys_replace [of "jobs st" "\<lparr>job_id = ''post-'' @ p,
              run_date = now + timedelta_seconds RETRY_DELAY_SECONDS, args = [JStr p]\<rparr>"]
  by (simp add: trigger_jobs)

subsection \<open>catchup.py\<close>

lemma ge_now_aware:
  "ge_now (if utcoffset d = None then d\<lparr>utcoffset := Some 0\<rparr> else d) now = Inr (now \<le> instant d)"
  by (cases "utcoffset d") (simp_all add: ge_now_def instant_def)

lemma catchup_job_simps [simp]:
  "job_id (catchup_job now v) = ''post-'' @ py_str v"
  "run_date (catchup_job now v) = now + timedelta_seconds 30"
  "args (catchup_job now v) = [v]"
  by (simp_all add: catchup_job_def CATCHUP_DELAY_SECONDS_def)

lemma recover_post_not_dict:
  "\<forall>kvs. post \<noteq> JObj kvs \<Longrightarrow> recover_post p now post acc = Inl AttributeError"
  by (cases post) (simp_all add: recover_post_def split: prod.splits)

lemma recover_post_incomplete:
  assumes "\<not> truthy (dict_get kvs ''id'')
           \<or> \<not> truthy (py_or (dict_get kvs ''scheduledAt'') (dict_get kvs ''scheduled_at''))"
  shows "recover_post p now (JObj kvs) (n, st) = Inr (n, st)"
  using assms by (auto simp: recover_post_def Let_def)

lemma recover_post_not_str:
  assumes "\<And>raw. py_or (dict_get kvs ''scheduledAt'') (dict_get kvs ''scheduled_at'') \<noteq> JStr raw"
  shows "recover_post p now (JObj kvs) (n, st) = Inr (n, st)"
  using assms by (auto simp: recover_post_def Let_def split: jvalue.splits)

lemma recover_post_unparsable:
  assumes "truthy (dict_get kvs ''id'')"
    and "py_or (dict_get kvs ''scheduledAt'') (dict_get kvs ''scheduled_at'') = JStr raw"
    and "raw \<noteq> []"
    and "p (replace_Z raw) = None"
  shows "recover_post p now (JObj kvs) (n, st) = Inr (n, log_msg WARNING parse_warning_log st)"
  using assms by (simp add: recover_post_def Let_def)

lemma recover_post_parsed:
  assumes "truthy (dict_get kvs ''id'')"
    and "py_or (dict_get kvs ''scheduledAt'') (dict_get kvs ''scheduled_at'') = JStr raw"
    and "raw \<noteq> []"
    and "p (replace_Z raw) = Some d"
  shows "recover_post p now (JObj kvs) (n, st) =
     (if now \<le> instant d then Inr (n, st)
      else if get_job (''post-'' @ py_str (dict_get kvs ''id'')) (jobs st) \<noteq> None then
        Inr (n, log_msg DEBUG pending_log st)
      else
        Inr (n + 1, log_msg INFO recovered_log
                      (st\<lparr>jobs := jobs st @ [catchup_job now (dict_get kvs ''id'')]\<rparr>)))"
  using assms ge_now_aware [of d now]
  by (auto simp: recover_post_def Let_def add_job_absent)

text \<open>What one pass can do to the count and to the state.\<close>

lemma recover_post_dict_cases:
  "recover_post p now (JObj kvs) (n, st) = Inr (n, st)
   \<or> recover_post p now (JObj kvs) (n, st) = Inr (n, log_msg WARNING parse_warning_log st)
   \<or> recover_post p now (JObj kvs) (n, st) = Inr (n, log_msg DEBUG pending_log st)
   \<or> (get_job (''post-'' @ py_str (dict_get kvs ''id'')) (jobs st) = None
      \<and> recover_post p now (JObj kvs) (n, st) =
          Inr (n + 1, log_msg INFO recovered_log
                        (st\<lparr>jobs := jobs st @ [catchup_job now (dict_get kvs ''id'')]\<rparr>)))"
proof (cases "\<not> truthy (dict_get kvs ''id'')
           \<or> \<not> truthy (py_or (dict_get kvs ''scheduledAt'') (dict_get kvs ''scheduled_at''))")
  case True
  then show ?thesis by (simp add: recover_post_incomplete)
next
  case wf: False
  show ?thesis
  proof (cases "\<exists>raw. py_or (dict_get kvs ''scheduledAt'') (dict_get kvs ''scheduled_at'') = JStr raw")
    case False
    then show ?thesis by (simp add: recover_post_not_str)
  next
    case True
    then obtain raw where raw: "py_or (dict_get kvs ''scheduledAt'') (dict_get kvs ''scheduled_at'') = JStr raw"
      by blast
    with wf have ne: "raw \<noteq> []" and tid: "truthy (dict_get kvs ''id'')" by auto
    show ?thesis
    proof (cases "p (replace_Z raw)")
      case None
      with tid raw ne show ?thesis by (simp add: recover_post_unparsable)
    next
      case (Some d)
      have "recover_post p now (JObj kvs) (n, st) =
         (if now \<le> instant d then Inr (n, st)
          else if get_job (''post-'' @ py_str (dict_get kvs ''id'')) (jobs st) \<noteq> None then
            Inr (n, log_msg DEBUG pending_log st)
          else
            Inr (n + 1, log_msg INFO recovered_log
                          (st\<lparr>jobs := jobs st @ [catchup_job now (dict_get kvs ''id'')]\<rparr>)))"
        using tid raw ne Some by (rule recover_post_parsed)
      then show ?thesis
        by (auto split: if_splits)
    qed
  qed
qed

lemma recover_post_step:
  assumes "recover_post p now post (n, st) = Inr (n', st')"
  shows "retry_counts st' = retry_counts st \<and> sent st' = sent st
     \<and> ((n' = n \<and> jobs st' = jobs st)
        \<or> (\<exists>v. n' = n + 1 \<and> jobs st' = jobs st @ [catchup_job now v]
                \<and> get_job (job_id (catchup_job now v)) (jobs st) = None))"
proof (cases post)
  case (JObj kvs)
  with assms recover_post_dict_cases [of p now kvs n st] show ?thesis
    by (elim disjE) auto
qed (use assms recover_post_not_dict [of post p now "(n, st)"] in auto)

lemma catchup_loop_effect:
  "catchup_loop p now xs (n, st) = (r, n', st') \<Longrightarrow>
     \<exists>added. jobs st' = jobs st @ added
       \<and> n' = n + int (length added)
       \<and> distinct (map job_id added)
       \<and> (\<forall>j\<in>set added. get_job (job_id j) (jobs st) = None
                          \<and> run_date j = now + timedelta_seconds 30)
       \<and> retry_counts st' = retry_counts st \<and> sent st' = sent st"
proof (induction xs arbitrary: n st)
  case Nil
  then show ?case by simp
next
  case (Cons x xs)
  show ?case
  proof (cases "recover_post p now x (n, st)")
    case (Inl e)
    with Cons.prems show ?thesis by simp
  next
    case (Inr acc)
    obtain n1 st1 where acc: "acc = (n1, st1)" by (cases acc)
    with Inr Cons.prems have loop: "catchup_loop p now xs (n1, st1) = (r, n', st')" by simp
    from Cons.IH [OF loop] obtain added where
      a: "jobs st' = jobs st1 @ added" "n' = n1 + int (length added)"
         "distinct (map job_id added)"
         "\<forall>j\<in>set added. get_job (job_id j) (jobs st1) = None \<and> run_date j = now + timedelta_seconds 30"
         "retry_counts st' = retry_counts st1" "sent st' = sent st1"
      by blast
    from recover_post_step [OF Inr [unfolded acc]]
    have same: "retry_counts st1 = retry_counts st" "sent st1 = sent st"
      and alt: "(n1 = n \<and> jobs st1 = jobs st)
        \<or> (\<exists>v. n1 = n + 1 \<and> jobs st1 = jobs st @ [catchup_job now v]
                \<and> get_job (job_id (catchup_job now v)) (jobs st) = None)"
      by auto
    from alt show ?thesis
    proof
      assume "n1 = n \<and> jobs st1 = jobs st"
      with a same show ?thesis by auto
    next
      assume "\<exists>v. n1 = n + 1 \<and> jobs st1 = jobs st @ [catchup_job now v]
                \<and> get_job (job_id (catchup_job now v)) (jobs st) = None"
      then obtain v where v: "n1 = n + 1" "jobs st1 = jobs st @ [catchup_job now v]"
        "get_job (job_id (catchup_job now v)) (jobs st) = None" by blast
      have fresh: "\<forall>j\<in>set added. job_id j \<noteq> job_id (catchup_job now v) \<and> get_job (job_id j) (jobs st) = None"
      proof
        fix j assume "j \<in> set added"
        with a(4) v(2) have "get_job (job_id j) (jobs st @ [catchup_job now v]) = None" by simp
        then show "job_id j \<noteq> job_id (catchup_job now v) \<and> get_job (job_id j) (jobs st) = None"
          by (auto simp: get_job_None_iff)
      qed
      let ?added = "catchup_job now v # added"
      have "jobs st' = jobs st @ ?added" using a(1) v(2) by simp
      moreover have "n' = n + int (length ?added)" using a(2) v(1) by simp
      moreover have "distinct (map job_id ?added)" using a(3) fresh by auto
      moreover have "\<forall>j\<in>set ?added. get_job (job_id j) (jobs st) = None
                          \<and> run_date j = now + timedelta_seconds 30"
        using a(4) fresh v(3) by auto
      moreover have "retry_counts st' = retry_counts st \<and> sent st' = sent st"
        using a(5,6) same by simp
      ultimately show ?thesis by (intro exI [of _ ?added] conjI) simp_all
    qed
  qed
qed

subsection \<open>A catch-up pass as a whole, and sequences\<close>

lemma process_posts_effect:
  "\<exists>added. jobs (snd (process_posts p now posts st)) = jobs st @ added
     \<and> distinct (map job_id added)
     \<and> (\<forall>j\<in>set added. get_job (job_id j) (jobs st) = None
                        \<and> run_date j = now + timedelta_seconds 30)
     \<and> (\<forall>n. fst (process_posts p now posts st) = Inr n \<longrightarrow> n = int (length added))
     \<and> retry_counts (snd (process_posts p now posts st)) = retry_counts st
     \<and> sent (snd (process_posts p now posts st)) = sent st"
proof (cases "iterate (unwrap_posts posts)")
  case (Inl e)
  then show ?thesis by (simp add: process_posts_def)
next
  case (Inr items)
  obtain r n' st' where loop: "catchup_loop p now items (0, st) = (r, n', st')"
    by (cases "catchup_loop p now items (0, st)") auto
  from catchup_loop_effect [OF loop] obtain added where
    a: "jobs st' = jobs st @ added" "n' = 0 + int (length added)" "distinct (map job_id added)"
       "\<forall>j\<in>set added. get_job (job_id j) (jobs st) = None \<and> run_date j = now + timedelta_seconds 30"
       "retry_counts st' = retry_counts st" "sent st' = sent st"
    by blast
  show ?thesis
    by (rule exI [of _ added]) (use Inr loop a in \<open>auto simp: process_posts_def split: option.splits\<close>)
qed

lemma recover_missed_posts_effect:
  "\<exists>added. jobs (snd (recover_missed_posts w p now st)) = jobs st @ added
     \<and> distinct (map job_id added)
     \<and> (\<forall>j\<in>set added. get_job (job_id j) (jobs st) = None
                        \<and> run_date j = now + timedelta_seconds 30)
     \<and> (\<forall>n. fst (recover_missed_posts w p now st) = Inr n \<longrightarrow> n = int (length added))
     \<and> retry_counts (snd (recover_missed_posts w p now st)) = retry_counts st"
proof (cases "\<exists>r posts. w posts_request = Inr r \<and> raise_for_status r = None \<and> body_json r = Some posts")
  case True
  then obtain r posts where "w posts_request = Inr r" "raise_for_status r = None" "body_json r = Some posts"
    by blast
  then have eq: "recover_missed_posts w p now st = process_posts p now posts (send posts_request st)"
    by (simp add: recover_missed_posts_def Let_def)
  from process_posts_effect [of p now posts "send posts_request st"] show ?thesis
    unfolding eq by auto
next
  case False
  then have "jobs (snd (recover_missed_posts w p now st)) = jobs st
     \<and> retry_counts (snd (recover_missed_posts w p now st)) = retry_counts st
     \<and> (\<forall>n. fst (recover_missed_posts w p now st) = Inr n \<longrightarrow> n = 0)"
    by (auto simp: recover_missed_posts_def Let_def split: sum.splits option.splits)
  then show ?thesis by (intro exI [of _ "[]"]) simp
qed

lemma unique_keys_append_fresh:
  assumes "unique_keys js" and "distinct (map job_id added)"
    and "\<forall>j\<in>set added. get_job (job_id j) js = None"
  shows "unique_keys (js @ added)"
  using assms by (auto simp: unique_keys_def get_job_None_iff)

lemma recover_missed_posts_unique:
  assumes "unique_keys (jobs st)"
  shows "unique_keys (jobs (snd (recover_missed_posts w p now st)))"
proof -
  from recover_missed_posts_effect [of w p now st] obtain added where
    "jobs (snd (recover_missed_posts w p now st)) = jobs st @ added"
    "distinct (map job_id added)" "\<forall>j\<in>set added. get_job (job_id j) (jobs st) = None"
    by blast
  with assms show ?thesis by (simp add: unique_keys_append_fresh)
qed

lemma step_unique: "unique_keys (jobs st) \<Longrightarrow> unique_keys (jobs (step p x st))"
  by (cases x)
     (simp_all add: create_schedule_unique cancel_schedule_unique reschedule_post_unique
        trigger_unique recover_missed_posts_unique)

lemma run_unique: "unique_keys (jobs st) \<Longrightarrow> unique_keys (jobs (run p xs st))"
  by (induction xs arbitrary: st) (simp_all add: step_unique)

lemma distinct_keys_count:
  "distinct (map f xs) \<Longrightarrow> length (filter (\<lambda>x. f x = k) xs) \<le> 1"
proof (induction xs)
  case Nil
  then show ?case by simp
next
  case (Cons x xs)
  show ?case
  proof (cases "f x = k")
    case True
    from Cons.prems have "f x \<notin> f ` set xs" by simp
    with True have "\<forall>y\<in>set xs. f y \<noteq> k" by blast
    then have "filter (\<lambda>x. f x = k) xs = []" by (simp add: filter_empty_conv)
    with True show ?thesis by simp
  next
    case False
    with Cons show ?thesis by simp
  qed
qed

section \<open>The claims\<close>

subsection \<open>One live job per key\<close>

text \<open>
  C1. At most one live job exists per job key at any time: from a store in which no two
  jobs share a key, no sequence of the operations that touch the store (create, cancel,
  reschedule, a firing with its retry re-enqueue, a catch-up pass) reaches a store
  holding two jobs under one key.
\<close>


theorem one_live_job_per_key:
  assumes "unique_keys (jobs st)"
  shows "length (filter (\<lambda>j. job_id j = key) (jobs (run p ops st))) \<le> 1"
proof -
  from run_unique [OF assms, of p ops]
  have "distinct (map job_id (jobs (run p ops st)))" by (simp add: unique_keys_def)
  then show ?thesis by (rule distinct_keys_count)
qed

lemma sample_run:
  "map job_id (jobs (run fromisoformat_basic sample_ops initial)) = [''post-a'', ''post-b'']"
  by code_simp

theorem one_live_job_per_key_witness:
  "unique_keys (jobs initial)
   \<and> length (filter (\<lambda>j. job_id j = ''post-a'')
               (jobs (run fromisoformat_basic sample_ops initial))) \<le> 1"
  using one_live_job_per_key [of initial "''post-a''" fromisoformat_basic sample_ops]
  by (simp add: initial_def unique_keys_def)

subsection \<open>A failed status update\<close>

text \<open>
  C2. As the claim states it, refuted: in a world where every call to the API fails and
  the webhook would answer 200, a firing never sends the webhook request
\<close>

theorem status_update_failure_counterexample:
  "api_down (publishing_request ''a'') = Inl (TransportError ''API down'')
   \<and> api_down (webhook_request ''a'') = Inr ok_response
   \<and> webhook_request ''a'' \<notin> set (sent (snd (trigger_linkedin_publish api_down 0 ''a'' initial)))"
  by (simp add: trigger_linkedin_publish_def publish_try_def schedule_retry_def Let_def
        api_down_def publishing_request_def webhook_request_def initial_def
        get_retry_count_def MAX_RETRIES_def add_job_def get_job_def send_def log_msg_def)

text \<open>
  C2, as amended. When the status PATCH of a firing fails, by a transport error or by a
  response outside 2xx, the failure is logged and ends the attempt: the webhook request
  is not sent, and the failure is handled as that of any firing. While the retry count
  is below MAX_RETRIES (3) the PATCH is the only request sent, the count rises by one
  and the job \<open>post-\<close> followed by the item id, due 120 seconds after \<open>now\<close>,
  replaces any job under the key; otherwise the PATCH with status \<open>failed\<close> and the
  message of 4 attempts follows, the entry of the item is cleared and the jobs stay
  as they were.
\<close>

theorem status_update_failure_aborts:
  assumes "w (publishing_request post_id) = Inl exc
           \<or> (\<exists>r. w (publishing_request post_id) = Inr r \<and> raise_for_status r = Some exc)"
  shows "\<exists>st'.
           trigger_linkedin_publish w now post_id st = (None, st')
           \<and> (ERROR, failure_log) \<in> set (logs st')
           \<and> Post_webhook (JObj [(''postId'', JStr post_id)])
                 \<notin> set (drop (length (sent st)) (sent st'))
           \<and> (get_retry_count (retry_counts st) post_id < MAX_RETRIES \<longrightarrow>
                 sent st' = sent st @ [Patch_post post_id (JObj [(''status'', JStr ''publishing'')])]
                 \<and> get_retry_count (retry_counts st') post_id
                     = get_retry_count (retry_counts st) post_id + 1
                 \<and> jobs st' =
                     filter (\<lambda>j. job_id j \<noteq> ''post-'' @ post_id) (jobs st) @
                     [\<lparr>job_id = ''post-'' @ post_id,
                       run_date = now + timedelta_seconds 120,
                       args = [JStr post_id]\<rparr>])
           \<and> (\<not> get_retry_count (retry_counts st) post_id < MAX_RETRIES \<longrightarrow>
                 sent st' = sent st @
                   [Patch_post post_id (JObj [(''status'', JStr ''publishing'')]),
                    Patch_post post_id
                      (JObj [(''status'', JStr ''failed''),
                             (''errorMessage'',
                              JStr (''Failed after 4 attempts. Last error: '' @ exc_str exc))])]
                 \<and> retry_counts st' post_id = None
                 \<and> jobs st' = jobs st)"
proof -
  let ?st1 = "send (publishing_request post_id) (log_msg INFO trigger_log st)"
  from assms have fe: "firing_error w post_id = Some exc"
    by (auto simp: firing_error_def)
  from assms publish_try_status_failure [where w = w and post_id = post_id and exc = exc
      and st = "log_msg INFO trigger_log st"]
  have pt: "snd (publish_try w post_id (log_msg INFO trigger_log st)) = ?st1"
    by simp
  show ?thesis
  proof (cases "get_retry_count (retry_counts st) post_id < MAX_RETRIES")
    case True
    with fe pt show ?thesis
      by (simp add: trigger_eq Let_def schedule_retry_eq publishing_request_def
            RETRY_DELAY_SECONDS_def get_retry_count_def)
  next
    case False
    let ?st2 = "(log_msg ERROR failure_log ?st1)
                  \<lparr>retry_counts := clear_retry_count (retry_counts ?st1) post_id\<rparr>"
    from mark_post_failed_logs [of w post_id "failure_message exc" ?st2]
    obtain l m' where
      "logs (mark_post_failed w post_id (failure_message exc) ?st2) = logs ?st2 @ [(l, m')]"
      by blast
    with False fe pt show ?thesis
      by (simp add: trigger_eq Let_def publishing_request_def failed_request_def
            failure_message_eq clear_retry_count_def)
  qed
qed

theorem status_update_failure_aborts_witness:
  "(api_down (publishing_request ''a'') = Inl (TransportError ''API down'')
      \<or> (\<exists>r. api_down (publishing_request ''a'') = Inr r
               \<and> raise_for_status r = Some (TransportError ''API down'')))
   \<and> get_retry_count (retry_counts initial) ''a'' < MAX_RETRIES
   \<and> (\<exists>st'. trigger_linkedin_publish api_down 1000 ''a'' initial = (None, st')
           \<and> (ERROR, failure_log) \<in> set (logs st')
           \<and> sent st' = [Patch_post ''a'' (JObj [(''status'', JStr ''publishing'')])]
           \<and> get_retry_count (retry_counts st') ''a'' = 1
           \<and> jobs st' = [\<lparr>job_id = ''post-a'', run_date = 120001000, args = [JStr ''a'']\<rparr>])
   \<and> \<not> get_retry_count (retry_counts (initial\<lparr>retry_counts := [''a'' \<mapsto> 3]\<rparr>)) ''a'' < MAX_RETRIES
   \<and> (\<exists>st'. trigger_linkedin_publish api_down 1000 ''a'' (initial\<lparr>retry_counts := [''a'' \<mapsto> 3]\<rparr>)
               = (None, st')
           \<and> sent st' =
                [Patch_post ''a'' (JObj [(''status'', JStr ''publishing'')]),
                 Patch_post ''a''
                   (JObj [(''status'', JStr ''failed''),
                          (''errorMessage'',
                           JStr ''Failed after 4 attempts. Last error: API down'')])]
           \<and> retry_counts st' ''a'' = None
           \<and> jobs st' = [])"
proof -
  let ?full = "initial\<lparr>retry_counts := [''a'' \<mapsto> 3]\<rparr>"
  have h: "api_down (publishing_request ''a'') = Inl (TransportError ''API down'')
      \<or> (\<exists>r. api_down (publishing_request ''a'') = Inr r
               \<and> raise_for_status r = Some (TransportError ''API down''))"
    by (simp add: api_down_def publishing_request_def)
  have c: "get_retry_count (retry_counts initial) ''a'' < MAX_RETRIES"
    and c0: "get_retry_count (retry_counts initial) ''a'' = 0"
    and c': "\<not> get_retry_count (retry_counts ?full) ''a'' < MAX_RETRIES"
    by (simp_all add: initial_def get_retry_count_def MAX_RETRIES_def)
  from h c status_update_failure_aborts [where w = api_down and post_id = "''a''"
      and exc = "TransportError ''API down''" and now = 1000 and st = initial]
  obtain st' where
    "trigger_linkedin_publish api_down 1000 ''a'' initial = (None, st')"
    "(ERROR, failure_log) \<in> set (logs st')"
    "sent st' = sent initial @ [Patch_post ''a'' (JObj [(''status'', JStr ''publishing'')])]"
    "get_retry_count (retry_counts st') ''a'' = get_retry_count (retry_counts initial) ''a'' + 1"
    "jobs st' = filter (\<lambda>j. job_id j \<noteq> ''post-'' @ ''a'') (jobs initial) @
         [\<lparr>job_id = ''post-'' @ ''a'', run_date = 1000 + timedelta_seconds 120, args = [JStr ''a'']\<rparr>]"
    by blast
  then have 1: "\<exists>st'. trigger_linkedin_publish api_down 1000 ''a'' initial = (None, st')
           \<and> (ERROR, failure_log) \<in> set (logs st')
           \<and> sent st' = [Patch_post ''a'' (JObj [(''status'', JStr ''publishing'')])]
           \<and> get_retry_count (retry_counts st') ''a'' = 1
           \<and> jobs st' = [\<lparr>job_id = ''post-a'', run_date = 120001000, args = [JStr ''a'']\<rparr>]"
    using c0 by (simp add: initial_def timedelta_seconds_def)
  from h c' status_update_failure_aborts [where w = api_down and post_id = "''a''"
      and exc = "TransportError ''API down''" and now = 1000 and st = ?full]
  obtain st'' where
    "trigger_linkedin_publish api_down 1000 ''a'' ?full = (None, st'')"
    "sent st'' = sent ?full @
                [Patch_post ''a'' (JObj [(''status'', JStr ''publishing'')]),
                 Patch_post ''a''
                   (JObj [(''status'', JStr ''failed''),
                          (''errorMessage'',
                           JStr (''Failed after 4 attempts. Last error: ''
                                 @ exc_str (TransportError ''API down'')))])]"
    "retry_counts st'' ''a'' = None"
    "jobs st'' = jobs ?full"
    by blast
  then have 2: "\<exists>st'. trigger_linkedin_publish api_down 1000 ''a'' ?full = (None, st')
           \<and> sent st' =
                [Patch_post ''a'' (JObj [(''status'', JStr ''publishing'')]),
                 Patch_post ''a''
                   (JObj [(''status'', JStr ''failed''),
                          (''errorMessage'',
                           JStr ''Failed after 4 attempts. Last error: API down'')])]
           \<and> retry_counts st' ''a'' = None
           \<and> jobs st' = []"
    by (simp add: initial_def)
  from h c c' 1 2 show ?thesis by blast
qed

subsection \<open>Exhausted retries\<close>

lemma firing_error_webhook_down: "firing_error webhook_down p = Some (TransportError ''n8n down'')"
  by (simp add: firing_error_def webhook_down_def publishing_request_def webhook_request_def
        raise_for_status_def ok_response_def)

text \<open>
  C3. A firing that fails while the retry count of the item equals MAX_RETRIES (3)
  returns normally, leaves no entry for the item in the retry counts, sends, after the
  requests of the attempt itself, the PATCH for the item whose body sets the status
  \<open>failed\<close> and gives as \<open>errorMessage\<close> the text ``Failed after 4 attempts. Last
  error: '' followed by the text of the error, and leaves the jobs as they were.
\<close>

theorem exhausted_retries_mark_failed:
  assumes "firing_error w post_id = Some exc"
    and "get_retry_count (retry_counts st) post_id = MAX_RETRIES"
  shows "\<exists>st' reqs.
           trigger_linkedin_publish w now post_id st = (None, st')
           \<and> retry_counts st' post_id = None
           \<and> sent st' = sent st @ reqs @
               [Patch_post post_id
                  (JObj [(''status'', JStr ''failed''),
                         (''errorMessage'',
                          JStr (''Failed after 4 attempts. Last error: '' @ exc_str exc))])]
           \<and> set reqs \<subseteq> {Patch_post post_id (JObj [(''status'', JStr ''publishing'')]),
                           Post_webhook (JObj [(''postId'', JStr post_id)])}
           \<and> jobs st' = jobs st"
proof -
  let ?st0 = "log_msg INFO trigger_log st"
  from publish_try_sent [of w post_id ?st0] obtain reqs where
    r: "sent (snd (publish_try w post_id ?st0)) = sent ?st0 @ reqs"
       "set reqs \<subseteq> {publishing_request post_id, webhook_request post_id}"
    by blast
  from r(2) have "set reqs \<subseteq> {Patch_post post_id (JObj [(''status'', JStr ''publishing'')]),
                           Post_webhook (JObj [(''postId'', JStr post_id)])}"
    by (simp add: publishing_request_def webhook_request_def)
  with assms r(1) show ?thesis
    by (simp add: trigger_eq Let_def publish_try_jobs publish_try_retry_counts
          clear_retry_count_def failure_message_eq failed_request_def)
qed



theorem exhausted_retries_mark_failed_witness:
  "firing_error webhook_down ''a'' = Some (TransportError ''n8n down'')
   \<and> get_retry_count (retry_counts (initial\<lparr>retry_counts := [''a'' \<mapsto> 3]\<rparr>)) ''a'' = MAX_RETRIES
   \<and> (\<exists>st' reqs.
         trigger_linkedin_publish webhook_down 0 ''a'' (initial\<lparr>retry_counts := [''a'' \<mapsto> 3]\<rparr>)
           = (None, st')
         \<and> retry_counts st' ''a'' = None
         \<and> sent st' = reqs @
             [Patch_post ''a''
                (JObj [(''status'', JStr ''failed''),
                       (''errorMessage'', JStr ''Failed after 4 attempts. Last error: n8n down'')])]
         \<and> set reqs \<subseteq> {Patch_post ''a'' (JObj [(''status'', JStr ''publishing'')]),
                         Post_webhook (JObj [(''postId'', JStr ''a'')])}
         \<and> jobs st' = [])
   \<and> (\<exists>st' reqs.
         trigger_linkedin_publish webhook_refuses 0 ''a'' (initial\<lparr>retry_counts := [''a'' \<mapsto> 3]\<rparr>)
           = (None, st')
         \<and> sent st' = reqs @
             [Patch_post ''a''
                (JObj [(''status'', JStr ''failed''),
                       (''errorMessage'',
                        JStr ''Failed after 4 attempts. Last error: Server error 500 Internal Server Error'')])])"
proof -
  let ?full = "initial\<lparr>retry_counts := [''a'' \<mapsto> 3]\<rparr>"
  let ?r = "\<lparr>status_code = 500, body_text = ''workflow error'', body_json = None,
               error_text = ''Server error 500 Internal Server Error''\<rparr>"
  have h1: "firing_error webhook_down ''a'' = Some (TransportError ''n8n down'')"
    by (rule firing_error_webhook_down)
  have h1': "firing_error webhook_refuses ''a'' = Some (HTTPStatusError ?r)"
    by (simp add: firing_error_def webhook_refuses_def publishing_request_def webhook_request_def
          raise_for_status_def ok_response_def)
  have h2: "get_retry_count (retry_counts ?full) ''a'' = MAX_RETRIES"
    by (simp add: get_retry_count_def MAX_RETRIES_def)
  from exhausted_retries_mark_failed [OF h1 h2, of 0]
  have 1: "\<exists>st' reqs.
         trigger_linkedin_publish webhook_down 0 ''a'' ?full = (None, st')
         \<and> retry_counts st' ''a'' = None
         \<and> sent st' = reqs @
             [Patch_post ''a''
                (JObj [(''status'', JStr ''failed''),
                       (''errorMessage'', JStr ''Failed after 4 attempts. Last error: n8n down'')])]
         \<and> set reqs \<subseteq> {Patch_post ''a'' (JObj [(''status'', JStr ''publishing'')]),
                         Post_webhook (JObj [(''postId'', JStr ''a'')])}
         \<and> jobs st' = []"
    by (simp add: initial_def)
  from exhausted_retries_mark_failed [OF h1' h2, of 0]
  have 2: "\<exists>st' reqs.
         trigger_linkedin_publish webhook_refuses 0 ''a'' ?full = (None, st')
         \<and> sent st' = reqs @
             [Patch_post ''a''
                (JObj [(''status'', JStr ''failed''),
                       (''errorMessage'',
                        JStr ''Failed after 4 attempts. Last error: Server error 500 Internal Server Error'')])]"
    by (simp add: initial_def) blast
  from h1 h2 1 2 show ?thesis by blast
qed

subsection \<open>A retry is scheduled\<close>

text \<open>
  C4. A firing that fails while the retry count of the item is below MAX_RETRIES (3)
  returns normally, raises the retry count of the item by exactly one, and leaves in the
  store, in place of any job under the key, the one job \<open>post-\<close> followed by
  the item id, due 120 seconds after \<open>now\<close>
\<close>

theorem failed_firing_schedules_retry:
  assumes "firing_error w post_id = Some exc"
    and "get_retry_count (retry_counts st) post_id < MAX_RETRIES"
  shows "\<exists>st'. trigger_linkedin_publish w now post_id st = (None, st')
           \<and> get_retry_count (retry_counts st') post_id
               = get_retry_count (retry_counts st) post_id + 1
           \<and> jobs st' =
               filter (\<lambda>j. job_id j \<noteq> ''post-'' @ post_id) (jobs st) @
               [\<lparr>job_id = ''post-'' @ post_id,
                 run_date = now + timedelta_seconds 120,
                 args = [JStr post_id]\<rparr>]"
  using assms
  by (simp add: trigger_eq Let_def schedule_retry_eq publish_try_jobs publish_try_retry_counts
        RETRY_DELAY_SECONDS_def get_retry_count_def)

theorem failed_firing_schedules_retry_witness:
  "firing_error webhook_down ''a'' = Some (TransportError ''n8n down'')
   \<and> get_retry_count (retry_counts (initial\<lparr>retry_counts := [''a'' \<mapsto> 2]\<rparr>)) ''a'' < MAX_RETRIES
   \<and> (\<exists>st'. trigger_linkedin_publish webhook_down 1000 ''a'' (initial\<lparr>retry_counts := [''a'' \<mapsto> 2]\<rparr>)
               = (None, st')
           \<and> get_retry_count (retry_counts st') ''a'' = 3
           \<and> jobs st' = [\<lparr>job_id = ''post-a'', run_date = 120001000, args = [JStr ''a'']\<rparr>])"
proof -
  have h1: "firing_error webhook_down ''a'' = Some (TransportError ''n8n down'')"
    by (rule firing_error_webhook_down)
  have h2: "get_retry_count (retry_counts (initial\<lparr>retry_counts := [''a'' \<mapsto> 2]\<rparr>)) ''a'' < MAX_RETRIES"
    by (simp add: get_retry_count_def MAX_RETRIES_def)
  from failed_firing_schedules_retry [OF h1 h2, of 1000] h1 h2 show ?thesis
    by (simp add: initial_def get_retry_count_def timedelta_seconds_def)
qed

subsection \<open>A failed fetch\<close>

text \<open>
  C5. When the fetch of the listing fails, by a transport error or by a response outside
  2xx, \<open>recover_missed_posts\<close> returns 0: it raises nothing, and apart from
  the request sent and one ERROR record the state is as before
\<close>

theorem fetch_failure_returns_zero:
  assumes "w posts_request = Inl exc
           \<or> (\<exists>r. w posts_request = Inr r \<and> raise_for_status r = Some exc)"
  shows "recover_missed_posts w p now st
           = (Inr 0, log_msg ERROR fetch_failed_log (send posts_request st))"
  using assms by (auto simp: recover_missed_posts_def Let_def)

theorem fetch_failure_returns_zero_witness:
  "(unavailable posts_request = Inl (HTTPStatusError \<lparr>status_code = 503, body_text = ''Service Unavailable'', body_json = None,
       error_text = ''Server error 503 Service Unavailable''\<rparr>)
      \<or> (\<exists>r. unavailable posts_request = Inr r
               \<and> raise_for_status r = Some (HTTPStatusError \<lparr>status_code = 503, body_text = ''Service Unavailable'', body_json = None,
       error_text = ''Server error 503 Service Unavailable''\<rparr>)))
   \<and> fst (recover_missed_posts unavailable fromisoformat_basic 0 initial) = Inr 0
   \<and> jobs (snd (recover_missed_posts unavailable fromisoformat_basic 0 initial)) = []"
proof -
  let ?e = "HTTPStatusError \<lparr>status_code = 503, body_text = ''Service Unavailable'', body_json = None,
       error_text = ''Server error 503 Service Unavailable''\<rparr>"
  have h: "unavailable posts_request = Inl ?e
      \<or> (\<exists>r. unavailable posts_request = Inr r \<and> raise_for_status r = Some ?e)"
    by (simp add: unavailable_def raise_for_status_def)
  from h fetch_failure_returns_zero [where w = unavailable and exc = ?e
      and p = fromisoformat_basic and now = 0 and st = initial]
  have "recover_missed_posts unavailable fromisoformat_basic 0 initial
           = (Inr 0, log_msg ERROR fetch_failed_log (send posts_request initial))"
    by blast
  with h show ?thesis by (simp add: initial_def)
qed

subsection \<open>Overdue candidates\<close>

lemma get_job_member: "j \<in> set js \<Longrightarrow> get_job (job_id j) js \<noteq> None"
  by (auto simp: get_job_None_iff)

lemma catchup_loop_grows:
  assumes "catchup_loop p now xs (n, st) = (r, n', st')"
  shows "n \<le> n' \<and> (\<exists>added. jobs st' = jobs st @ added)"
  using catchup_loop_effect [OF assms] by auto

lemma due_id_Some_iff:
  "due_id p now (JObj kvs) = Some v \<longleftrightarrow>
     v = dict_get kvs ''id'' \<and> truthy v
     \<and> (\<exists>raw d. py_or (dict_get kvs ''scheduledAt'') (dict_get kvs ''scheduled_at'') = JStr raw
           \<and> raw \<noteq> [] \<and> p (replace_Z raw) = Some d \<and> instant d < now)"
  by (auto simp: due_id_def split: jvalue.splits option.splits)

lemma recover_post_due:
  assumes "due_id p now (JObj kvs) = Some v"
  shows "recover_post p now (JObj kvs) (n, st) =
     (if get_job (''post-'' @ py_str v) (jobs st) \<noteq> None then
        Inr (n, log_msg DEBUG pending_log st)
      else Inr (n + 1, log_msg INFO recovered_log (st\<lparr>jobs := jobs st @ [catchup_job now v]\<rparr>)))"
proof -
  from assms obtain raw d where
    f: "v = dict_get kvs ''id''" "truthy (dict_get kvs ''id'')"
       "py_or (dict_get kvs ''scheduledAt'') (dict_get kvs ''scheduled_at'') = JStr raw"
       "raw \<noteq> []" "p (replace_Z raw) = Some d" "instant d < now"
    by (auto simp: due_id_Some_iff)
  from f(2-5) have "recover_post p now (JObj kvs) (n, st) =
     (if now \<le> instant d then Inr (n, st)
      else if get_job (''post-'' @ py_str (dict_get kvs ''id'')) (jobs st) \<noteq> None then
        Inr (n, log_msg DEBUG pending_log st)
      else
        Inr (n + 1, log_msg INFO recovered_log
                      (st\<lparr>jobs := jobs st @ [catchup_job now (dict_get kvs ''id'')]\<rparr>)))"
    by (rule recover_post_parsed)
  with f(1,6) show ?thesis by simp
qed

lemma recover_post_not_due:
  assumes "due_id p now (JObj kvs) = None"
  shows "\<exists>st2. recover_post p now (JObj kvs) (n, st) = Inr (n, st2) \<and> jobs st2 = jobs st"
proof (cases "\<not> truthy (dict_get kvs ''id'')
           \<or> \<not> truthy (py_or (dict_get kvs ''scheduledAt'') (dict_get kvs ''scheduled_at''))")
  case True
  then show ?thesis by (simp add: recover_post_incomplete)
next
  case wf: False
  show ?thesis
  proof (cases "\<exists>raw. py_or (dict_get kvs ''scheduledAt'') (dict_get kvs ''scheduled_at'') = JStr raw")
    case False
    then show ?thesis by (simp add: recover_post_not_str)
  next
    case True
    then obtain raw where raw: "py_or (dict_get kvs ''scheduledAt'') (dict_get kvs ''scheduled_at'') = JStr raw"
      by blast
    with wf have ne: "raw \<noteq> []" and tid: "truthy (dict_get kvs ''id'')" by auto
    show ?thesis
    proof (cases "p (replace_Z raw)")
      case None
      with tid raw ne show ?thesis by (simp add: recover_post_unparsable)
    next
      case (Some d)
      with assms raw ne tid have late: "now \<le> instant d"
        by (auto simp: due_id_def split: if_splits)
      have "recover_post p now (JObj kvs) (n, st) =
         (if now \<le> instant d then Inr (n, st)
          else if get_job (''post-'' @ py_str (dict_get kvs ''id'')) (jobs st) \<noteq> None then
            Inr (n, log_msg DEBUG pending_log st)
          else
            Inr (n + 1, log_msg INFO recovered_log
                          (st\<lparr>jobs := jobs st @ [catchup_job now (dict_get kvs ''id'')]\<rparr>)))"
        using tid raw ne Some by (rule recover_post_parsed)
      with late show ?thesis by simp
    qed
  qed
qed

text \<open>
  A loop over objects ends normally; the jobs it adds are those of the overdue
  candidates whose key is free, one for each key.
\<close>

lemma catchup_loop_objects:
  assumes "\<forall>x\<in>set xs. \<exists>kvs. x = JObj kvs"
  shows "\<exists>added st'.
      catchup_loop p now xs (n, st) = (None, n + int (length added), st')
      \<and> jobs st' = jobs st @ added
      \<and> distinct (map job_id added)
      \<and> (\<forall>j\<in>set added. get_job (job_id j) (jobs st) = None)
      \<and> (\<forall>x\<in>set xs. \<forall>v. due_id p now x = Some v
             \<and> get_job (''post-'' @ py_str v) (jobs st) = None
           \<longrightarrow> (\<exists>j\<in>set added. job_id j = ''post-'' @ py_str v))
      \<and> (\<forall>j\<in>set added. \<exists>x\<in>set xs. \<exists>v. due_id p now x = Some v
             \<and> get_job (''post-'' @ py_str v) (jobs st) = None \<and> j = catchup_job now v)"
  using assms
proof (induction xs arbitrary: n st)
  case Nil
  then show ?case by simp
next
  case (Cons x xs)
  then obtain kvs where x: "x = JObj kvs" by auto
  from Cons.prems have objs: "\<forall>x\<in>set xs. \<exists>kvs. x = JObj kvs" by simp
  show ?case
  proof (cases "\<exists>v. due_id p now x = Some v \<and> get_job (''post-'' @ py_str v) (jobs st) = None")
    case True
    then obtain v where v: "due_id p now x = Some v" "get_job (''post-'' @ py_str v) (jobs st) = None"
      by blast
    let ?st1 = "log_msg INFO recovered_log (st\<lparr>jobs := jobs st @ [catchup_job now v]\<rparr>)"
    from v x have step: "recover_post p now x (n, st) = Inr (n + 1, ?st1)"
      by (simp add: recover_post_due)
    from Cons.IH [OF objs, of "n + 1" ?st1] obtain added st' where
      ih: "catchup_loop p now xs (n + 1, ?st1) = (None, n + 1 + int (length added), st')"
          "jobs st' = jobs ?st1 @ added"
          "distinct (map job_id added)"
          "\<forall>j\<in>set added. get_job (job_id j) (jobs ?st1) = None"
          "\<forall>x\<in>set xs. \<forall>u. due_id p now x = Some u
             \<and> get_job (''post-'' @ py_str u) (jobs ?st1) = None
           \<longrightarrow> (\<exists>j\<in>set added. job_id j = ''post-'' @ py_str u)"
          "\<forall>j\<in>set added. \<exists>x\<in>set xs. \<exists>u. due_id p now x = Some u
             \<and> get_job (''post-'' @ py_str u) (jobs ?st1) = None \<and> j = catchup_job now u"
      by blast
    have js1: "jobs ?st1 = jobs st @ [catchup_job now v]" by simp
    have split: "get_job k (jobs st @ [catchup_job now v]) = None \<longleftrightarrow>
                 get_job k (jobs st) = None \<and> k \<noteq> ''post-'' @ py_str v" for k
      by (auto simp: get_job_None_iff)
    from ih(4) have fresh: "\<forall>j\<in>set added. get_job (job_id j) (jobs st) = None
                               \<and> job_id j \<noteq> ''post-'' @ py_str v"
      unfolding js1 split by simp
    let ?added = "catchup_job now v # added"
    have 1: "catchup_loop p now (x # xs) (n, st) = (None, n + int (length ?added), st')"
      using step ih(1) by simp
    have 2: "jobs st' = jobs st @ ?added" using ih(2) by simp
    have 3: "distinct (map job_id ?added)" using ih(3) fresh by auto
    have 4: "\<forall>j\<in>set ?added. get_job (job_id j) (jobs st) = None"
      using fresh v(2) by simp
    have 5: "\<forall>y\<in>set (x # xs). \<forall>u. due_id p now y = Some u
             \<and> get_job (''post-'' @ py_str u) (jobs st) = None
           \<longrightarrow> (\<exists>j\<in>set ?added. job_id j = ''post-'' @ py_str u)"
    proof (intro ballI allI impI)
      fix y u
      assume y: "y \<in> set (x # xs)"
        and u: "due_id p now y = Some u \<and> get_job (''post-'' @ py_str u) (jobs st) = None"
      show "\<exists>j\<in>set ?added. job_id j = ''post-'' @ py_str u"
      proof (cases "''post-'' @ py_str u = ''post-'' @ py_str v")
        case True
        then show ?thesis by simp
      next
        case False
        with y u v(1) have "y \<in> set xs" by auto
        moreover from False u have "get_job (''post-'' @ py_str u) (jobs ?st1) = None"
          unfolding js1 split by simp
        ultimately show ?thesis using ih(5) u by auto
      qed
    qed
    have 6: "\<forall>j\<in>set ?added. \<exists>y\<in>set (x # xs). \<exists>u. due_id p now y = Some u
             \<and> get_job (''post-'' @ py_str u) (jobs st) = None \<and> j = catchup_job now u"
    proof
      fix j assume "j \<in> set ?added"
      then consider "j = catchup_job now v" | "j \<in> set added" by auto
      then show "\<exists>y\<in>set (x # xs). \<exists>u. due_id p now y = Some u
             \<and> get_job (''post-'' @ py_str u) (jobs st) = None \<and> j = catchup_job now u"
      proof cases
        case 1
        with v show ?thesis by auto
      next
        case 2
        with ih(6) obtain y u where yu: "y \<in> set xs" "due_id p now y = Some u"
          "get_job (''post-'' @ py_str u) (jobs ?st1) = None" "j = catchup_job now u"
          by blast
        from yu(3) have "get_job (''post-'' @ py_str u) (jobs st) = None"
          unfolding js1 split by simp
        with yu show ?thesis by auto
      qed
    qed
    from 1 2 3 4 5 6 show ?thesis by blast
  next
    case False
    have "\<exists>st1. recover_post p now x (n, st) = Inr (n, st1) \<and> jobs st1 = jobs st"
    proof (cases "due_id p now x")
      case None
      with x show ?thesis by (simp add: recover_post_not_due)
    next
      case (Some v)
      with False have "get_job (''post-'' @ py_str v) (jobs st) \<noteq> None" by simp
      with Some x show ?thesis by (simp add: recover_post_due)
    qed
    then obtain st1 where step: "recover_post p now x (n, st) = Inr (n, st1)"
      and same: "jobs st1 = jobs st" by blast
    from Cons.IH [OF objs, of n st1] obtain added st' where
      ih: "catchup_loop p now xs (n, st1) = (None, n + int (length added), st')"
          "jobs st' = jobs st1 @ added"
          "distinct (map job_id added)"
          "\<forall>j\<in>set added. get_job (job_id j) (jobs st1) = None"
          "\<forall>x\<in>set xs. \<forall>u. due_id p now x = Some u
             \<and> get_job (''post-'' @ py_str u) (jobs st1) = None
           \<longrightarrow> (\<exists>j\<in>set added. job_id j = ''post-'' @ py_str u)"
          "\<forall>j\<in>set added. \<exists>x\<in>set xs. \<exists>u. due_id p now x = Some u
             \<and> get_job (''post-'' @ py_str u) (jobs st1) = None \<and> j = catchup_job now u"
      by blast
    have 1: "catchup_loop p now (x # xs) (n, st) = (None, n + int (length added), st')"
      using step ih(1) by simp
    have 5: "\<forall>y\<in>set (x # xs). \<forall>u. due_id p now y = Some u
             \<and> get_job (''post-'' @ py_str u) (jobs st) = None
           \<longrightarrow> (\<exists>j\<in>set added. job_id j = ''post-'' @ py_str u)"
      using ih(5) False same by auto
    have 6: "\<forall>j\<in>set added. \<exists>y\<in>set (x # xs). \<exists>u. due_id p now y = Some u
             \<and> get_job (''post-'' @ py_str u) (jobs st) = None \<and> j = catchup_job now u"
      using ih(6) same by auto
    from 1 ih(2,3,4) 5 6 same show ?thesis
      by (intro exI [of _ added] exI [of _ st']) simp
  qed
qed

lemma recover_missed_posts_listed:
  assumes "w posts_request = Inr r" and "raise_for_status r = None"
    and "body_json r = Some (JList posts)
         \<or> (\<exists>kvs. body_json r = Some (JObj kvs) \<and> dict_lookup kvs ''posts'' = Some (JList posts))"
  shows "recover_missed_posts w p now st =
     (case catchup_loop p now posts (0, send posts_request st) of
        (Some e, recovered, st') \<Rightarrow> (Inl e, st')
      | (None, recovered, st') \<Rightarrow>
          (Inr recovered,
           if recovered \<noteq> 0 then log_msg INFO complete_log st'
           else log_msg INFO nothing_log st'))"
  using assms
  by (auto simp: recover_missed_posts_def process_posts_def unwrap_posts_def Let_def)

text \<open>
  C6. Take a 2xx listing, bare or wrapped, whose elements are all objects. Then
  \<open>recover_missed_posts\<close> returns a count, the number of the jobs it has appended to
  the store, which lie under pairwise distinct keys. For every listed candidate with a
  truthy identifier and a timestamp string that the parser accepts: if the instant it
  declares lies before \<open>now\<close> and no live job existed under its key, a job under that
  key, due 30 seconds after \<open>now\<close>, is among the appended and counted jobs; if the
  instant does not lie before \<open>now\<close>, the pass over it changes neither count nor
  state. Every appended job is the job of such an overdue candidate whose key was free.
\<close>

theorem due_candidates_recovered:
  assumes "w posts_request = Inr r" and "raise_for_status r = None"
    and "body_json r = Some (JList posts)
         \<or> (\<exists>kvs. body_json r = Some (JObj kvs) \<and> dict_lookup kvs ''posts'' = Some (JList posts))"
    and "\<forall>x\<in>set posts. \<exists>kvs. x = JObj kvs"
  shows "\<exists>added.
      fst (recover_missed_posts w p now st) = Inr (int (length added))
      \<and> jobs (snd (recover_missed_posts w p now st)) = jobs st @ added
      \<and> distinct (map job_id added)
      \<and> (\<forall>kvs raw d.
            JObj kvs \<in> set posts \<and> truthy (dict_get kvs ''id'')
            \<and> py_or (dict_get kvs ''scheduledAt'') (dict_get kvs ''scheduled_at'') = JStr raw
            \<and> raw \<noteq> [] \<and> p (replace_Z raw) = Some d
          \<longrightarrow> (instant d < now
                  \<and> get_job (''post-'' @ py_str (dict_get kvs ''id'')) (jobs st) = None
                \<longrightarrow> (\<exists>j\<in>set added. job_id j = ''post-'' @ py_str (dict_get kvs ''id'')
                                       \<and> run_date j = now + timedelta_seconds 30))
              \<and> (now \<le> instant d
                \<longrightarrow> (\<forall>n s. recover_post p now (JObj kvs) (n, s) = Inr (n, s))))
      \<and> (\<forall>j\<in>set added. \<exists>kvs raw d.
            JObj kvs \<in> set posts \<and> truthy (dict_get kvs ''id'')
            \<and> py_or (dict_get kvs ''scheduledAt'') (dict_get kvs ''scheduled_at'') = JStr raw
            \<and> raw \<noteq> [] \<and> p (replace_Z raw) = Some d
            \<and> instant d < now
            \<and> get_job (''post-'' @ py_str (dict_get kvs ''id'')) (jobs st) = None
            \<and> j = \<lparr>job_id = ''post-'' @ py_str (dict_get kvs ''id''),
                    run_date = now + timedelta_seconds 30,
                    args = [dict_get kvs ''id'']\<rparr>)"
proof -
  let ?st0 = "send posts_request st"
  from catchup_loop_objects [OF assms(4), of p now 0 ?st0] obtain added st' where
    l: "catchup_loop p now posts (0, ?st0) = (None, 0 + int (length added), st')"
       "jobs st' = jobs ?st0 @ added"
       "distinct (map job_id added)"
       "\<forall>x\<in>set posts. \<forall>v. due_id p now x = Some v
             \<and> get_job (''post-'' @ py_str v) (jobs ?st0) = None
           \<longrightarrow> (\<exists>j\<in>set added. job_id j = ''post-'' @ py_str v)"
       "\<forall>j\<in>set added. \<exists>x\<in>set posts. \<exists>v. due_id p now x = Some v
             \<and> get_job (''post-'' @ py_str v) (jobs ?st0) = None \<and> j = catchup_job now v"
    by blast
  have run30: "\<forall>j\<in>set added. run_date j = now + timedelta_seconds 30"
    using l(5) by auto
  have res: "fst (recover_missed_posts w p now st) = Inr (int (length added))"
    "jobs (snd (recover_missed_posts w p now st)) = jobs st @ added"
    using l(1,2) assms(1-3)
      recover_missed_posts_listed [where w = w and r = r and posts = posts and p = p
        and now = now and st = st]
    by simp_all
  have A: "(instant d < now \<and> get_job (''post-'' @ py_str (dict_get kvs ''id'')) (jobs st) = None
             \<longrightarrow> (\<exists>j\<in>set added. job_id j = ''post-'' @ py_str (dict_get kvs ''id'')
                                    \<and> run_date j = now + timedelta_seconds 30))
           \<and> (now \<le> instant d \<longrightarrow> (\<forall>n s. recover_post p now (JObj kvs) (n, s) = Inr (n, s)))"
    if c: "JObj kvs \<in> set posts \<and> truthy (dict_get kvs ''id'')
            \<and> py_or (dict_get kvs ''scheduledAt'') (dict_get kvs ''scheduled_at'') = JStr raw
            \<and> raw \<noteq> [] \<and> p (replace_Z raw) = Some d"
    for kvs raw d
  proof (intro conjI impI)
    assume due: "instant d < now \<and> get_job (''post-'' @ py_str (dict_get kvs ''id'')) (jobs st) = None"
    with c have "due_id p now (JObj kvs) = Some (dict_get kvs ''id'')"
      by (auto simp: due_id_Some_iff)
    with l(4) c due obtain j where "j \<in> set added" "job_id j = ''post-'' @ py_str (dict_get kvs ''id'')"
      by fastforce
    with run30 show "\<exists>j\<in>set added. job_id j = ''post-'' @ py_str (dict_get kvs ''id'')
                                    \<and> run_date j = now + timedelta_seconds 30"
      by blast
  next
    assume late: "now \<le> instant d"
    have "recover_post p now (JObj kvs) (n, s) =
         (if now \<le> instant d then Inr (n, s)
          else if get_job (''post-'' @ py_str (dict_get kvs ''id'')) (jobs s) \<noteq> None then
            Inr (n, log_msg DEBUG pending_log s)
          else
            Inr (n + 1, log_msg INFO recovered_log
                          (s\<lparr>jobs := jobs s @ [catchup_job now (dict_get kvs ''id'')]\<rparr>)))" for n s
      using c recover_post_parsed [where kvs = kvs and raw = raw and p = p and d = d
          and now = now and n = n and st = s]
      by blast
    with late show "\<forall>n s. recover_post p now (JObj kvs) (n, s) = Inr (n, s)" by simp
  qed
  have B: "\<exists>kvs raw d.
            JObj kvs \<in> set posts \<and> truthy (dict_get kvs ''id'')
            \<and> py_or (dict_get kvs ''scheduledAt'') (dict_get kvs ''scheduled_at'') = JStr raw
            \<and> raw \<noteq> [] \<and> p (replace_Z raw) = Some d
            \<and> instant d < now
            \<and> get_job (''post-'' @ py_str (dict_get kvs ''id'')) (jobs st) = None
            \<and> j = \<lparr>job_id = ''post-'' @ py_str (dict_get kvs ''id''),
                    run_date = now + timedelta_seconds 30,
                    args = [dict_get kvs ''id'']\<rparr>"
    if "j \<in> set added" for j
  proof -
    from that l(5) obtain x v where xv: "x \<in> set posts" "due_id p now x = Some v"
      "get_job (''post-'' @ py_str v) (jobs st) = None" "j = catchup_job now v"
      by fastforce
    from xv(1) assms(4) obtain kvs where x: "x = JObj kvs" by blast
    from xv(2) [unfolded x due_id_Some_iff] obtain raw d where
      "v = dict_get kvs ''id''" "truthy v"
      "py_or (dict_get kvs ''scheduledAt'') (dict_get kvs ''scheduled_at'') = JStr raw"
      "raw \<noteq> []" "p (replace_Z raw) = Some d" "instant d < now"
      by blast
    with xv x show ?thesis
      by (intro exI [of _ kvs] exI [of _ raw] exI [of _ d])
         (simp add: catchup_job_def CATCHUP_DELAY_SECONDS_def)
  qed
  from res l(3) A B show ?thesis
    by (intro exI [of _ added]) blast
qed

lemma overdue_a_parsed:
  "truthy (dict_get overdue_a ''id'')
   \<and> py_or (dict_get overdue_a ''scheduledAt'') (dict_get overdue_a ''scheduled_at'')
       = JStr ''2024-01-01T00:00:00Z''
   \<and> fromisoformat_basic (replace_Z ''2024-01-01T00:00:00Z'')
       = Some \<lparr>wall = 1704067200000000, utcoffset = Some 0\<rparr>
   \<and> dict_get overdue_a ''id'' = JStr ''a''"
  by code_simp

lemma future_b_parsed:
  "truthy (dict_get future_b ''id'')
   \<and> py_or (dict_get future_b ''scheduledAt'') (dict_get future_b ''scheduled_at'')
       = JStr ''2024-01-01T02:00:00+01:00''
   \<and> fromisoformat_basic (replace_Z ''2024-01-01T02:00:00+01:00'')
       = Some \<lparr>wall = 1704074400000000, utcoffset = Some 3600000000\<rparr>
   \<and> dict_get future_b ''id'' = JStr ''b''"
  by code_simp

lemma two_posts_pass:
  "fst (recover_missed_posts (listing two_posts) fromisoformat_basic 1704069000000000 initial)
     = Inr 1
   \<and> jobs (snd (recover_missed_posts (listing two_posts) fromisoformat_basic
                  1704069000000000 initial))
     = [\<lparr>job_id = ''post-a'', run_date = 1704069030000000, args = [JStr ''a'']\<rparr>]"
  by code_simp

theorem due_candidates_recovered_witness:
  "listing two_posts posts_request
     = Inr \<lparr>status_code = 200, body_text = [], body_json = Some two_posts, error_text = []\<rparr>
   \<and> two_posts = JList [JObj overdue_a, JObj future_b]
   \<and> fromisoformat_basic (replace_Z ''2024-01-01T00:00:00Z'')
       = Some \<lparr>wall = 1704067200000000, utcoffset = Some 0\<rparr>
   \<and> fromisoformat_basic (replace_Z ''2024-01-01T02:00:00+01:00'')
       = Some \<lparr>wall = 1704074400000000, utcoffset = Some 3600000000\<rparr>
   \<and> (\<exists>added.
        fst (recover_missed_posts (listing two_posts) fromisoformat_basic 1704069000000000 initial)
          = Inr (int (length added))
        \<and> jobs (snd (recover_missed_posts (listing two_posts) fromisoformat_basic
                       1704069000000000 initial)) = added
        \<and> added = [\<lparr>job_id = ''post-a'', run_date = 1704069030000000, args = [JStr ''a'']\<rparr>]
        \<and> (\<exists>j\<in>set added. job_id j = ''post-a'' \<and> run_date j = 1704069000000000 + timedelta_seconds 30)
        \<and> recover_post fromisoformat_basic 1704069000000000 (JObj future_b) (0, initial)
            = Inr (0, initial))"
proof -
  let ?now = "1704069000000000 :: int"
  let ?r = "\<lparr>status_code = 200, body_text = [], body_json = Some two_posts, error_text = []\<rparr>"
  let ?da = "\<lparr>wall = 1704067200000000, utcoffset = Some 0\<rparr>"
  let ?db = "\<lparr>wall = 1704074400000000, utcoffset = Some 3600000000\<rparr>"
  have w: "listing two_posts posts_request = Inr ?r" by (simp add: listing_def)
  have ok: "raise_for_status ?r = None" by (simp add: raise_for_status_def)
  have tp: "two_posts = JList [JObj overdue_a, JObj future_b]" by (simp add: two_posts_def)
  have body: "body_json ?r = Some (JList [JObj overdue_a, JObj future_b])
     \<or> (\<exists>kvs. body_json ?r = Some (JObj kvs)
              \<and> dict_lookup kvs ''posts'' = Some (JList [JObj overdue_a, JObj future_b]))"
    by (simp add: tp)
  have objs: "\<forall>x\<in>set [JObj overdue_a, JObj future_b]. \<exists>kvs. x = JObj kvs" by simp
  from overdue_a_parsed have a:
    "truthy (dict_get overdue_a ''id'')"
    "py_or (dict_get overdue_a ''scheduledAt'') (dict_get overdue_a ''scheduled_at'')
       = JStr ''2024-01-01T00:00:00Z''"
    "fromisoformat_basic (replace_Z ''2024-01-01T00:00:00Z'') = Some ?da"
    "dict_get overdue_a ''id'' = JStr ''a''"
    by simp_all
  from future_b_parsed have b:
    "truthy (dict_get future_b ''id'')"
    "py_or (dict_get future_b ''scheduledAt'') (dict_get future_b ''scheduled_at'')
       = JStr ''2024-01-01T02:00:00+01:00''"
    "fromisoformat_basic (replace_Z ''2024-01-01T02:00:00+01:00'') = Some ?db"
    by simp_all
  have ia: "instant ?da < ?now" and ib: "?now \<le> instant ?db"
    by (simp_all add: instant_def)
  have free: "get_job (''post-'' @ py_str (dict_get overdue_a ''id'')) (jobs initial) = None"
    by (simp add: initial_def get_job_def)
  from w ok body objs due_candidates_recovered [where w = "listing two_posts" and r = ?r
      and posts = "[JObj overdue_a, JObj future_b]" and p = fromisoformat_basic
      and now = ?now and st = initial]
  obtain added where
    t: "fst (recover_missed_posts (listing two_posts) fromisoformat_basic ?now initial)
          = Inr (int (length added))"
       "jobs (snd (recover_missed_posts (listing two_posts) fromisoformat_basic ?now initial))
          = jobs initial @ added"
       "\<And>kvs raw d.
            JObj kvs \<in> set [JObj overdue_a, JObj future_b] \<and> truthy (dict_get kvs ''id'')
            \<and> py_or (dict_get kvs ''scheduledAt'') (dict_get kvs ''scheduled_at'') = JStr raw
            \<and> raw \<noteq> [] \<and> fromisoformat_basic (replace_Z raw) = Some d
          \<Longrightarrow> (instant d < ?now
                  \<and> get_job (''post-'' @ py_str (dict_get kvs ''id'')) (jobs initial) = None
                \<longrightarrow> (\<exists>j\<in>set added. job_id j = ''post-'' @ py_str (dict_get kvs ''id'')
                                       \<and> run_date j = ?now + timedelta_seconds 30))
              \<and> (?now \<le> instant d
                \<longrightarrow> (\<forall>n s. recover_post fromisoformat_basic ?now (JObj kvs) (n, s) = Inr (n, s)))"
    by blast
  from t(3) [of overdue_a "''2024-01-01T00:00:00Z''" ?da] a ia free
  have ja: "\<exists>j\<in>set added. job_id j = ''post-a'' \<and> run_date j = ?now + timedelta_seconds 30"
    by simp
  from t(3) [of future_b "''2024-01-01T02:00:00+01:00''" ?db] b ib
  have fb: "recover_post fromisoformat_basic ?now (JObj future_b) (0, initial) = Inr (0, initial)"
    by simp
  from t(2) two_posts_pass
  have ad: "added = [\<lparr>job_id = ''post-a'', run_date = 1704069030000000, args = [JStr ''a'']\<rparr>]"
    by (simp add: initial_def)
  from t(1,2) ja fb ad have
    "\<exists>added.
        fst (recover_missed_posts (listing two_posts) fromisoformat_basic ?now initial)
          = Inr (int (length added))
        \<and> jobs (snd (recover_missed_posts (listing two_posts) fromisoformat_basic ?now initial))
          = added
        \<and> added = [\<lparr>job_id = ''post-a'', run_date = 1704069030000000, args = [JStr ''a'']\<rparr>]
        \<and> (\<exists>j\<in>set added. job_id j = ''post-a'' \<and> run_date j = ?now + timedelta_seconds 30)
        \<and> recover_post fromisoformat_basic ?now (JObj future_b) (0, initial) = Inr (0, initial)"
    by (intro exI [of _ added]) (simp add: initial_def)
  with w tp a(3) b(3) show ?thesis by blast
qed

subsection \<open>Idempotence of the catch-up pass\<close>

lemma recover_post_raises:
  assumes "recover_post p now post (n, st) = Inl e"
  shows "(\<forall>kvs. post \<noteq> JObj kvs) \<and> e = AttributeError"
proof (cases "\<exists>kvs. post = JObj kvs")
  case True
  then obtain kvs where "post = JObj kvs" by blast
  with assms recover_post_dict_cases [of p now kvs n st] show ?thesis by auto
next
  case False
  with assms recover_post_not_dict [of post p now "(n, st)"] show ?thesis by simp
qed

text \<open>A pass over a candidate in a store that already holds every job of \<open>st1\<close>.\<close>

lemma recover_post_again:
  assumes first: "recover_post p now (JObj kvs) (n, st) = Inr (n1, st1)"
    and live: "\<forall>j\<in>set (jobs st1). get_job (job_id j) (jobs t) \<noteq> None"
  shows "\<exists>t1. recover_post p now (JObj kvs) (m, t) = Inr (m, t1) \<and> jobs t1 = jobs t"
proof (cases "\<not> truthy (dict_get kvs ''id'')
           \<or> \<not> truthy (py_or (dict_get kvs ''scheduledAt'') (dict_get kvs ''scheduled_at''))")
  case True
  then show ?thesis by (simp add: recover_post_incomplete)
next
  case wf: False
  show ?thesis
  proof (cases "\<exists>raw. py_or (dict_get kvs ''scheduledAt'') (dict_get kvs ''scheduled_at'') = JStr raw")
    case False
    then show ?thesis by (simp add: recover_post_not_str)
  next
    case True
    then obtain raw where raw: "py_or (dict_get kvs ''scheduledAt'') (dict_get kvs ''scheduled_at'') = JStr raw"
      by blast
    with wf have ne: "raw \<noteq> []" and tid: "truthy (dict_get kvs ''id'')" by auto
    show ?thesis
    proof (cases "p (replace_Z raw)")
      case None
      with tid raw ne show ?thesis by (simp add: recover_post_unparsable)
    next
      case (Some d)
      let ?key = "''post-'' @ py_str (dict_get kvs ''id'')"
      have eq: "recover_post p now (JObj kvs) (k, s) =
         (if now \<le> instant d then Inr (k, s)
          else if get_job ?key (jobs s) \<noteq> None then Inr (k, log_msg DEBUG pending_log s)
          else Inr (k + 1, log_msg INFO recovered_log
                          (s\<lparr>jobs := jobs s @ [catchup_job now (dict_get kvs ''id'')]\<rparr>)))"
        for k s
        using tid raw ne Some by (rule recover_post_parsed)
      show ?thesis
      proof (cases "now \<le> instant d")
        case True
        with eq [of m t] show ?thesis by simp
      next
        case False
        have "get_job ?key (jobs t) \<noteq> None"
        proof (cases "get_job ?key (jobs st)")
          case None
          with False first eq [of n st]
          have "catchup_job now (dict_get kvs ''id'') \<in> set (jobs st1)" by auto
          with live have "get_job (job_id (catchup_job now (dict_get kvs ''id''))) (jobs t) \<noteq> None"
            by blast
          then show ?thesis by simp
        next
          case (Some j)
          then have j: "job_id j = ?key" "j \<in> set (jobs st)" by (auto dest: get_job_Some_id)
          from Some False first eq [of n st] have "jobs st1 = jobs st" by auto
          with j live show ?thesis by auto
        qed
        with False eq [of m t] show ?thesis by simp
      qed
    qed
  qed
qed

lemma catchup_loop_again:
  "catchup_loop p now xs (n, st) = (r, n', st') \<Longrightarrow>
   \<forall>j\<in>set (jobs st'). get_job (job_id j) (jobs t) \<noteq> None \<Longrightarrow>
   \<exists>t'. catchup_loop p now xs (m, t) = (r, m, t') \<and> jobs t' = jobs t"
proof (induction xs arbitrary: n st t)
  case Nil
  then show ?case by simp
next
  case (Cons x xs)
  show ?case
  proof (cases "recover_post p now x (n, st)")
    case (Inl e)
    from recover_post_raises [OF Inl] have "recover_post p now x (m, t) = Inl e"
      by (simp add: recover_post_not_dict)
    with Inl Cons.prems(1) show ?thesis by simp
  next
    case (Inr acc)
    obtain n1 st1 where acc: "acc = (n1, st1)" by (cases acc)
    with Inr Cons.prems(1) have loop: "catchup_loop p now xs (n1, st1) = (r, n', st')" by simp
    from catchup_loop_grows [OF loop] obtain added where "jobs st' = jobs st1 @ added" by blast
    with Cons.prems(2) have live1: "\<forall>j\<in>set (jobs st1). get_job (job_id j) (jobs t) \<noteq> None"
      by simp
    from Inr acc obtain kvs where x: "x = JObj kvs"
      using recover_post_not_dict [of x p now "(n, st)"] by (cases "\<exists>kvs. x = JObj kvs") auto
    from recover_post_again [OF Inr [unfolded acc x] live1, of m] obtain t1 where
      t1: "recover_post p now (JObj kvs) (m, t) = Inr (m, t1)" "jobs t1 = jobs t" by blast
    from Cons.prems(2) t1(2) have "\<forall>j\<in>set (jobs st'). get_job (job_id j) (jobs t1) \<noteq> None"
      by simp
    from Cons.IH [OF loop this] obtain t' where
      "catchup_loop p now xs (m, t1) = (r, m, t')" "jobs t' = jobs t1" by blast
    with t1 x show ?thesis by simp
  qed
qed

lemma process_posts_again:
  assumes "\<forall>j\<in>set (jobs (snd (process_posts p now posts st))). get_job (job_id j) (jobs t) \<noteq> None"
  shows "fst (process_posts p now posts t)
           = (case fst (process_posts p now posts st) of Inl e \<Rightarrow> Inl e | Inr n \<Rightarrow> Inr 0)
         \<and> jobs (snd (process_posts p now posts t)) = jobs t"
proof (cases "iterate (unwrap_posts posts)")
  case (Inl e)
  then show ?thesis by (simp add: process_posts_def)
next
  case (Inr items)
  obtain r n' st' where loop: "catchup_loop p now items (0, st) = (r, n', st')"
    by (cases "catchup_loop p now items (0, st)") auto
  with Inr have "jobs (snd (process_posts p now posts st)) = jobs st'"
    by (simp add: process_posts_def split: option.splits)
  with assms have "\<forall>j\<in>set (jobs st'). get_job (job_id j) (jobs t) \<noteq> None" by simp
  from catchup_loop_again [OF loop this, of 0] obtain t' where
    "catchup_loop p now items (0, t) = (r, 0, t')" "jobs t' = jobs t" by blast
  with Inr loop show ?thesis
    by (simp add: process_posts_def split: option.splits)
qed

lemma recover_missed_posts_again:
  "fst (recover_missed_posts w p now (snd (recover_missed_posts w p now st)))
     = (case fst (recover_missed_posts w p now st) of Inl e \<Rightarrow> Inl e | Inr n \<Rightarrow> Inr 0)
   \<and> jobs (snd (recover_missed_posts w p now (snd (recover_missed_posts w p now st))))
     = jobs (snd (recover_missed_posts w p now st))"
proof (cases "\<exists>r posts. w posts_request = Inr r \<and> raise_for_status r = None \<and> body_json r = Some posts")
  case True
  then obtain r posts where "w posts_request = Inr r" "raise_for_status r = None" "body_json r = Some posts"
    by blast
  then have eq: "recover_missed_posts w p now s = process_posts p now posts (send posts_request s)" for s
    by (simp add: recover_missed_posts_def Let_def)
  let ?s1 = "snd (process_posts p now posts (send posts_request st))"
  have "\<forall>j\<in>set (jobs ?s1). get_job (job_id j) (jobs (send posts_request ?s1)) \<noteq> None"
    by (simp add: get_job_member)
  from process_posts_again [OF this] show ?thesis
    by (simp add: eq)
next
  case False
  then show ?thesis
    by (auto simp: recover_missed_posts_def Let_def split: sum.splits option.splits)
qed

text \<open>
  C7. A candidate under whose key a live job exists is passed over: the count and the
  jobs stay as they were. Hence, of two catch-up passes in a row against the same
  listing, the second enqueues no key the first enqueued, each returned count is the
  number of jobs its pass enqueued, and with the same clock reading the second pass
  enqueues nothing and returns 0 where the first returned a count
\<close>

theorem reconcile_idempotent:
  "(get_job (''post-'' @ py_str (dict_get kvs ''id'')) (jobs st) \<noteq> None \<longrightarrow>
      (\<exists>st1. recover_post p now (JObj kvs) (n, st) = Inr (n, st1) \<and> jobs st1 = jobs st))
   \<and> (\<exists>added1 added2.
         jobs (snd (recover_missed_posts w p now1 st)) = jobs st @ added1
         \<and> jobs (snd (recover_missed_posts w p now2 (snd (recover_missed_posts w p now1 st))))
             = jobs st @ added1 @ added2
         \<and> distinct (map job_id (added1 @ added2))
         \<and> (\<forall>k. fst (recover_missed_posts w p now1 st) = Inr k \<longrightarrow> k = int (length added1))
         \<and> (\<forall>k. fst (recover_missed_posts w p now2 (snd (recover_missed_posts w p now1 st))) = Inr k
                \<longrightarrow> k = int (length added2)))
   \<and> fst (recover_missed_posts w p now1 (snd (recover_missed_posts w p now1 st)))
       = (case fst (recover_missed_posts w p now1 st) of Inl e \<Rightarrow> Inl e | Inr k \<Rightarrow> Inr 0)
   \<and> jobs (snd (recover_missed_posts w p now1 (snd (recover_missed_posts w p now1 st))))
       = jobs (snd (recover_missed_posts w p now1 st))"
proof -
  have skip: "\<exists>st1. recover_post p now (JObj kvs) (n, st) = Inr (n, st1) \<and> jobs st1 = jobs st"
    if "get_job (''post-'' @ py_str (dict_get kvs ''id'')) (jobs st) \<noteq> None"
    using that recover_post_dict_cases [of p now kvs n st] by auto
  let ?s1 = "snd (recover_missed_posts w p now1 st)"
  let ?s2 = "snd (recover_missed_posts w p now2 ?s1)"
  from recover_missed_posts_effect [of w p now1 st] obtain added1 where
    a1: "jobs ?s1 = jobs st @ added1" "distinct (map job_id added1)"
        "\<forall>k. fst (recover_missed_posts w p now1 st) = Inr k \<longrightarrow> k = int (length added1)"
    by blast
  from recover_missed_posts_effect [of w p now2 ?s1] obtain added2 where
    a2: "jobs ?s2 = jobs ?s1 @ added2" "distinct (map job_id added2)"
        "\<forall>j\<in>set added2. get_job (job_id j) (jobs ?s1) = None"
        "\<forall>k. fst (recover_missed_posts w p now2 ?s1) = Inr k \<longrightarrow> k = int (length added2)"
    by blast
  have "job_id i \<noteq> job_id j" if "i \<in> set added1" "j \<in> set added2" for i j
  proof -
    from that(2) a2(3) a1(1) have "get_job (job_id j) (jobs st @ added1) = None" by simp
    with that(1) show ?thesis by (auto simp: get_job_None_iff)
  qed
  then have "job_id ` set added1 \<inter> job_id ` set added2 = {}" by blast
  with a1(2) a2(2) have "distinct (map job_id (added1 @ added2))" by simp
  with a1 a2 have twice: "\<exists>added1 added2.
         jobs ?s1 = jobs st @ added1
         \<and> jobs ?s2 = jobs st @ added1 @ added2
         \<and> distinct (map job_id (added1 @ added2))
         \<and> (\<forall>k. fst (recover_missed_posts w p now1 st) = Inr k \<longrightarrow> k = int (length added1))
         \<and> (\<forall>k. fst (recover_missed_posts w p now2 ?s1) = Inr k \<longrightarrow> k = int (length added2))"
    by (intro exI [of _ added1] exI [of _ added2]) simp
  from skip twice recover_missed_posts_again [of w p now1 st] show ?thesis by blast
qed

lemma sample_first_pass:
  "fst (recover_missed_posts (listing sample_listing) fromisoformat_basic 1704070900000000 initial)
     = Inr 2"
  by code_simp

lemma sample_second_pass:
  "fst (recover_missed_posts (listing sample_listing) fromisoformat_basic 1704071200000000
          (snd (recover_missed_posts (listing sample_listing) fromisoformat_basic
                  1704070900000000 initial)))
     = Inr 0"
  by code_simp

theorem reconcile_idempotent_witness:
  "fst (recover_missed_posts (listing sample_listing) fromisoformat_basic 1704070900000000 initial)
     = Inr 2
   \<and> fst (recover_missed_posts (listing sample_listing) fromisoformat_basic 1704071200000000
          (snd (recover_missed_posts (listing sample_listing) fromisoformat_basic
                  1704070900000000 initial)))
     = Inr 0
   \<and> jobs (snd (recover_missed_posts (listing sample_listing) fromisoformat_basic 1704071200000000
          (snd (recover_missed_posts (listing sample_listing) fromisoformat_basic
                  1704070900000000 initial))))
     = jobs (snd (recover_missed_posts (listing sample_listing) fromisoformat_basic
                  1704070900000000 initial))"
proof -
  let ?w = "listing sample_listing"
  let ?s1 = "snd (recover_missed_posts ?w fromisoformat_basic 1704070900000000 initial)"
  let ?s2 = "snd (recover_missed_posts ?w fromisoformat_basic 1704071200000000 ?s1)"
  from reconcile_idempotent [of "[]" initial fromisoformat_basic 0 0 ?w
      1704070900000000 1704071200000000]
  obtain added1 added2 where
    a: "jobs ?s1 = jobs initial @ added1" "jobs ?s2 = jobs initial @ added1 @ added2"
       "\<forall>k. fst (recover_missed_posts ?w fromisoformat_basic 1704071200000000 ?s1) = Inr k
              \<longrightarrow> k = int (length added2)"
    by blast
  from a(3) sample_second_pass have "added2 = []" by simp
  with a(1,2) have "jobs ?s2 = jobs ?s1" by simp
  with sample_first_pass sample_second_pass show ?thesis by simp
qed

subsection \<open>Shapes of the listing\<close>

lemma process_posts_empty:
  "process_posts p now (JList []) st = (Inr 0, log_msg INFO nothing_log st)"
  by (simp add: process_posts_def unwrap_posts_def)

text \<open>
  A body that is neither a list nor an object, and an object without the field
  \<open>posts\<close>, yield no candidate: the function returns 0 after the summary line.
\<close>

lemma other_bodies_return_zero:
  assumes "w posts_request = Inr r" and "raise_for_status r = None" and "body_json r = Some body"
    and "\<forall>ys. body \<noteq> JList ys"
    and "\<forall>kvs. body = JObj kvs \<longrightarrow> dict_lookup kvs ''posts'' = None"
  shows "recover_missed_posts w p now st
           = (Inr 0, log_msg INFO nothing_log (send posts_request st))"
proof -
  from assms(4,5) have "unwrap_posts body = JList []"
    by (cases body) (simp_all add: unwrap_posts_def)
  then have "process_posts p now body (send posts_request st)
               = process_posts p now (JList []) (send posts_request st)"
    by (simp add: process_posts_def unwrap_posts_def)
  with assms(1-3) show ?thesis
    by (simp add: recover_missed_posts_def Let_def process_posts_empty)
qed

lemma wrapped_as_bare:
  "fst (recover_missed_posts (listing wrapped_listing) fromisoformat_basic 1704070900000000 initial)
     = Inr 2
   \<and> map job_id (jobs (snd (recover_missed_posts (listing wrapped_listing) fromisoformat_basic
                               1704070900000000 initial)))
     = [''post-a'', ''post-b'']"
  by code_simp

text \<open>
  C8. A 200 response whose body is the object \<open>{"posts": null}\<close> is neither a bare
  list nor an object wrapping a list: it should be treated as an empty candidate list,
  with 0 returned. The function takes the value under \<open>posts\<close> as it is and raises
  \<open>TypeError\<close> when it iterates over it.
\<close>

theorem null_posts_raises:
  "listing null_posts posts_request
     = Inr \<lparr>status_code = 200, body_text = [], body_json = Some (JObj [(''posts'', JNull)]),
            error_text = []\<rparr>
   \<and> fst (recover_missed_posts (listing null_posts) fromisoformat_basic 0 initial) = Inl TypeError"
  by (simp add: listing_def null_posts_def recover_missed_posts_def process_posts_def
        unwrap_posts_def dict_lookup_def raise_for_status_def Let_def)

subsection \<open>Screening of the candidates\<close>

text \<open>
  C9. As stated, refuted: a candidate with an identifier and no timestamp is skipped
  with no record logged, where a warning is claimed
\<close>

theorem missing_timestamp_counterexample:
  "truthy (dict_get undated ''id'')
   \<and> dict_lookup undated ''scheduledAt'' = None
   \<and> dict_lookup undated ''scheduled_at'' = None
   \<and> recover_post fromisoformat_basic 1704070900000000 (JObj undated) (0, initial) = Inr (0, initial)
   \<and> logs initial = []"
  by (simp add: undated_def dict_get_def dict_lookup_def recover_post_def py_or_def initial_def)

text \<open>
  C9, as amended. A candidate whose identifier is missing or falsy, or whose timestamp
  is missing, falsy or not a string, is skipped with no record logged. A candidate whose
  timestamp string the parser rejects, after every \<open>Z\<close> has been replaced by
  \<open>+00:00\<close>, is skipped with one WARNING record. A candidate whose timestamp
  string the parser accepts, with or without an offset, is judged by the instant it
  declares, a timestamp without offset being read as UTC: it is skipped when that
  instant is not before \<open>now\<close>, and otherwise skipped with a DEBUG record or
  recovered according to the store
\<close>

theorem candidate_screening:
  "(\<not> truthy (dict_get kvs ''id'')
      \<or> \<not> truthy (py_or (dict_get kvs ''scheduledAt'') (dict_get kvs ''scheduled_at''))
      \<or> (\<forall>raw. py_or (dict_get kvs ''scheduledAt'') (dict_get kvs ''scheduled_at'') \<noteq> JStr raw)
      \<longrightarrow> recover_post p now (JObj kvs) (n, st) = Inr (n, st))
   \<and> (truthy (dict_get kvs ''id'')
        \<and> py_or (dict_get kvs ''scheduledAt'') (dict_get kvs ''scheduled_at'') = JStr raw
        \<and> raw \<noteq> [] \<and> p (replace_Z raw) = None
      \<longrightarrow> recover_post p now (JObj kvs) (n, st) = Inr (n, log_msg WARNING parse_warning_log st))
   \<and> (truthy (dict_get kvs ''id'')
        \<and> py_or (dict_get kvs ''scheduledAt'') (dict_get kvs ''scheduled_at'') = JStr raw
        \<and> raw \<noteq> [] \<and> p (replace_Z raw) = Some d
      \<longrightarrow> recover_post p now (JObj kvs) (n, st) =
            (if now \<le> wall d - (case utcoffset d of None \<Rightarrow> 0 | Some off \<Rightarrow> off) then Inr (n, st)
             else if get_job (''post-'' @ py_str (dict_get kvs ''id'')) (jobs st) \<noteq> None then
               Inr (n, log_msg DEBUG pending_log st)
             else
               Inr (n + 1, log_msg INFO recovered_log
                             (st\<lparr>jobs := jobs st @ [catchup_job now (dict_get kvs ''id'')]\<rparr>))))"
proof (intro conjI impI)
  assume "\<not> truthy (dict_get kvs ''id'')
      \<or> \<not> truthy (py_or (dict_get kvs ''scheduledAt'') (dict_get kvs ''scheduled_at''))
      \<or> (\<forall>raw. py_or (dict_get kvs ''scheduledAt'') (dict_get kvs ''scheduled_at'') \<noteq> JStr raw)"
  then show "recover_post p now (JObj kvs) (n, st) = Inr (n, st)"
    using recover_post_incomplete [of kvs p now n st] recover_post_not_str [of kvs p now n st]
    by blast
next
  assume "truthy (dict_get kvs ''id'')
        \<and> py_or (dict_get kvs ''scheduledAt'') (dict_get kvs ''scheduled_at'') = JStr raw
        \<and> raw \<noteq> [] \<and> p (replace_Z raw) = None"
  then show "recover_post p now (JObj kvs) (n, st) = Inr (n, log_msg WARNING parse_warning_log st)"
    using recover_post_unparsable [where kvs = kvs and raw = raw and p = p and now = now
        and n = n and st = st]
    by blast
next
  assume "truthy (dict_get kvs ''id'')
        \<and> py_or (dict_get kvs ''scheduledAt'') (dict_get kvs ''scheduled_at'') = JStr raw
        \<and> raw \<noteq> [] \<and> p (replace_Z raw) = Some d"
  then show "recover_post p now (JObj kvs) (n, st) =
            (if now \<le> wall d - (case utcoffset d of None \<Rightarrow> 0 | Some off \<Rightarrow> off) then Inr (n, st)
             else if get_job (''post-'' @ py_str (dict_get kvs ''id'')) (jobs st) \<noteq> None then
               Inr (n, log_msg DEBUG pending_log st)
             else
               Inr (n + 1, log_msg INFO recovered_log
                             (st\<lparr>jobs := jobs st @ [catchup_job now (dict_get kvs ''id'')]\<rparr>)))"
    using recover_post_parsed [where kvs = kvs and raw = raw and p = p and d = d and now = now
        and n = n and st = st]
    by (simp add: instant_def)
qed

lemma timestamps_parsed:
  "fromisoformat_basic (replace_Z ''2024-01-01T00:00:00Z'')
     = Some \<lparr>wall = 1704067200000000, utcoffset = Some 0\<rparr>
   \<and> fromisoformat_basic (replace_Z ''2024-01-01T00:00:00'')
     = Some \<lparr>wall = 1704067200000000, utcoffset = None\<rparr>
   \<and> fromisoformat_basic (replace_Z ''2024-01-01T02:00:00+01:00'')
     = Some \<lparr>wall = 1704074400000000, utcoffset = Some 3600000000\<rparr>
   \<and> fromisoformat_basic (replace_Z ''tomorrow'') = None"
  by code_simp

lemma sample_fields:
  "dict_get naive_a ''id'' = JStr ''a''
   \<and> py_or (dict_get naive_a ''scheduledAt'') (dict_get naive_a ''scheduled_at'')
       = JStr ''2024-01-01T00:00:00''
   \<and> dict_get garbled ''id'' = JStr ''d''
   \<and> py_or (dict_get garbled ''scheduledAt'') (dict_get garbled ''scheduled_at'') = JStr ''tomorrow''
   \<and> dict_get undated ''id'' = JStr ''c''
   \<and> py_or (dict_get undated ''scheduledAt'') (dict_get undated ''scheduled_at'') = JNull"
  by code_simp

theorem candidate_screening_witness:
  "recover_post fromisoformat_basic 1704070900000000 (JObj undated) (0, initial) = Inr (0, initial)
   \<and> recover_post fromisoformat_basic 1704070900000000 (JObj garbled) (0, initial)
       = Inr (0, log_msg WARNING parse_warning_log initial)
   \<and> recover_post fromisoformat_basic 1704070900000000 (JObj naive_a) (0, initial)
       = Inr (1, log_msg INFO recovered_log
                   (initial\<lparr>jobs := [\<lparr>job_id = ''post-a'', run_date = 1704070930000000,
                                       args = [JStr ''a'']\<rparr>]\<rparr>))
   \<and> recover_post fromisoformat_basic 1704070900000000 (JObj overdue_a) (0, initial)
       = recover_post fromisoformat_basic 1704070900000000 (JObj naive_a) (0, initial)"
proof -
  let ?now = "1704070900000000 :: int"
  note f = sample_fields [THEN conjunct1] sample_fields [THEN conjunct2, THEN conjunct1]
    sample_fields [THEN conjunct2, THEN conjunct2, THEN conjunct1]
    sample_fields [THEN conjunct2, THEN conjunct2, THEN conjunct2, THEN conjunct1]
    sample_fields [THEN conjunct2, THEN conjunct2, THEN conjunct2, THEN conjunct2, THEN conjunct1]
    sample_fields [THEN conjunct2, THEN conjunct2, THEN conjunct2, THEN conjunct2, THEN conjunct2]
  note t = timestamps_parsed [THEN conjunct1] timestamps_parsed [THEN conjunct2, THEN conjunct1]
    timestamps_parsed [THEN conjunct2, THEN conjunct2, THEN conjunct2]
  have 1: "recover_post fromisoformat_basic ?now (JObj undated) (0, initial) = Inr (0, initial)"
    using candidate_screening [where kvs = undated and p = fromisoformat_basic and now = ?now
        and n = 0 and st = initial] f
    by simp
  have 2: "recover_post fromisoformat_basic ?now (JObj garbled) (0, initial)
       = Inr (0, log_msg WARNING parse_warning_log initial)"
    using candidate_screening [where kvs = garbled and p = fromisoformat_basic and now = ?now
        and n = 0 and st = initial and raw = "''tomorrow''"] f t
    by simp
  have 3: "recover_post fromisoformat_basic ?now (JObj naive_a) (0, initial)
       = Inr (1, log_msg INFO recovered_log
                   (initial\<lparr>jobs := [\<lparr>job_id = ''post-a'', run_date = 1704070930000000,
                                       args = [JStr ''a'']\<rparr>]\<rparr>))"
    using candidate_screening [where kvs = naive_a and p = fromisoformat_basic and now = ?now
        and n = 0 and st = initial and raw = "''2024-01-01T00:00:00''"
        and d = "\<lparr>wall = 1704067200000000, utcoffset = None\<rparr>"] f t
    by (simp add: catchup_job_def CATCHUP_DELAY_SECONDS_def timedelta_seconds_def initial_def
          get_job_def)
  have 4: "recover_post fromisoformat_basic ?now (JObj overdue_a) (0, initial)
       = Inr (1, log_msg INFO recovered_log
                   (initial\<lparr>jobs := [\<lparr>job_id = ''post-a'', run_date = 1704070930000000,
                                       args = [JStr ''a'']\<rparr>]\<rparr>))"
    using candidate_screening [where kvs = overdue_a and p = fromisoformat_basic and now = ?now
        and n = 0 and st = initial and raw = "''2024-01-01T00:00:00Z''"
        and d = "\<lparr>wall = 1704067200000000, utcoffset = Some 0\<rparr>"] overdue_a_parsed t
    by (simp add: catchup_job_def CATCHUP_DELAY_SECONDS_def timedelta_seconds_def initial_def
          get_job_def)
  from 1 2 3 4 show ?thesis by simp
qed

subsection \<open>Bound on the retry counts\<close>

lemma get_retry_count_bounded:
  "retry_bounded rc \<Longrightarrow> 0 \<le> get_retry_count rc post_id"
proof (cases "rc post_id")
  case None
  then show ?thesis by (simp add: get_retry_count_def)
next
  case (Some n)
  assume "retry_bounded rc"
  with Some have "1 \<le> n" by (simp add: retry_bounded_def)
  with Some show ?thesis by (simp add: get_retry_count_def)
qed

lemma trigger_retry_bounded:
  assumes "retry_bounded (retry_counts st)"
  shows "retry_bounded (retry_counts (snd (trigger_linkedin_publish w now post_id st)))"
proof -
  from assms have "0 \<le> get_retry_count (retry_counts st) post_id"
    by (rule get_retry_count_bounded)
  with assms show ?thesis
    by (auto simp: trigger_retry_counts retry_bounded_def)
qed

lemma recover_missed_posts_retry_counts:
  "retry_counts (snd (recover_missed_posts w p now st)) = retry_counts st"
  using recover_missed_posts_effect [of w p now st] by blast

lemma step_retry_bounded:
  "retry_bounded (retry_counts st) \<Longrightarrow> retry_bounded (retry_counts (step p x st))"
  by (cases x) (simp_all add: trigger_retry_bounded recover_missed_posts_retry_counts)

text \<open>
  C10. From retry counts whose every entry lies between 1 and MAX_RETRIES (3), every
  sequence of operations leads to retry counts whose every entry lies between 1 and
  MAX_RETRIES
\<close>

theorem retry_counts_stay_bounded:
  assumes "retry_bounded (retry_counts st)"
  shows "retry_bounded (retry_counts (run p ops st))"
  using assms by (induction ops arbitrary: st) (simp_all add: step_retry_bounded)

lemma failing_run:
  "retry_counts (run fromisoformat_basic failing_ops initial) ''a'' = Some 3
   \<and> retry_counts (run fromisoformat_basic failing_ops initial) ''b'' = Some 1"
  by code_simp

theorem retry_counts_stay_bounded_witness:
  "retry_bounded (retry_counts initial)
   \<and> retry_bounded (retry_counts (run fromisoformat_basic failing_ops initial))"
proof -
  have h: "retry_bounded (retry_counts initial)"
    by (simp add: retry_bounded_def initial_def)
  from retry_counts_stay_bounded [OF h, of fromisoformat_basic failing_ops] h
  show ?thesis by simp
qed

end
